theory Spec2Isabelle
  imports Main "HOL-Library.AList"
begin

section \<open>The eBay listing polling engine of sellboy\<close>

text \<open>
  A shallow embedding of the automatic update engine of the bot: the interval policy
  \<open>getUpdateIntervalMs\<close>, the data source \<open>getEbayListing\<close> with its two strategies,
  the per-record update \<open>updateEbayListing\<close> and the body of the timer callback of
  \<open>startEbayUpdateLoop\<close>.

  Numbers are JavaScript numbers holding integers (epoch milliseconds, counts): \<open>int\<close>.
  A field that may be \<open>null\<close> or missing is an \<open>option\<close>. Status, source and listing type
  are JavaScript strings and stay strings.
\<close>

subsection \<open>Data\<close>

text \<open>The fields that a fetched snapshot and a stored record have in common.\<close>

record details =
  title :: string
  currentPrice :: string
  bidCount :: int
  endTime :: "int option"
  imageUrl :: "string option"
  description :: string
  views :: int
  watchers :: int
  listingType :: string
  buyItNowPrice :: "string option"

text \<open>
  What a strategy has extracted when it reaches its \<open>return\<close>: the fields above and the
  flag \<open>isEnded\<close> (for the API strategy, that the item's end date lies before the time of
  the call).
\<close>

record page = details +
  isEnded :: bool

text \<open>The object returned by \<open>fetchEbayListingViaAPI\<close> and \<open>scrapeEbayListing\<close>.\<close>

record snapshot = details +
  status :: string
  source :: string

text \<open>A value of \<open>db.ebayListings\<close>, as the intake command writes it.\<close>

record listing = snapshot +
  url :: string
  ownerId :: string
  lastChecked :: "int option"
  createdAt :: int

record credentials =
  appId :: string
  devId :: string
  certId :: string

text \<open>
  The JSON document of \<open>loadDb\<close>/\<open>saveDb\<close>. \<open>ebayListings\<close> is a JavaScript object:
  an association list in insertion order, which is the order of \<open>Object.entries\<close>.
\<close>

record db =
  ebayCredentials :: "credentials option"
  ebayListings :: "(string \<times> listing) list option"

text \<open>The two templates of the plain-text notification, with the values they interpolate.\<close>

datatype notification =
    AuctionEnded string int
  | BidUpdate string int string int

text \<open>
  What the engine does to the outside: a call of the data source for a record, with its
  outcome; a call of one strategy; the edit of the embed message (built from the record);
  a channel rename; a notification that was posted.
\<close>

datatype event =
    Fetched string "string + snapshot"
  | ApiCall string
  | ScrapeCall string
  | EmbedEdit string listing
  | SetName string "nat list"
  | Send string notification

text \<open>
  The state: the data file (\<open>None\<close>: absent or unparsable), the number of interactions
  with the outside so far, and the effects so far.
\<close>

record world =
  disk :: "db option"
  step :: nat
  trace :: "event list"

text \<open>
  The outside: configuration, the clock, the network and the messaging gateway. Every
  answer may depend on the number of interactions before it, so that two calls need not
  agree. Strings of channel names are lists of UTF-16 code units.
\<close>

record env =
  configEbayAppId :: string
  configEbayDevId :: string
  configEbayCertId :: string
  now :: "nat \<Rightarrow> int"
  apiResponse :: "nat \<Rightarrow> string \<Rightarrow> string + page"
  scrapeResponse :: "nat \<Rightarrow> string \<Rightarrow> string + page"
  guildsFetch :: "nat \<Rightarrow> bool"
  channelsFetch :: "nat \<Rightarrow> string \<Rightarrow> nat list option"
  messagesFetch :: "nat \<Rightarrow> string \<Rightarrow> string + bool"
  messageEdit :: "nat \<Rightarrow> string \<Rightarrow> bool"
  setName :: "nat \<Rightarrow> string \<Rightarrow> nat list \<Rightarrow> bool"
  send :: "nat \<Rightarrow> string \<Rightarrow> bool"

subsection \<open>Primitives\<close>

definition advance :: "world \<Rightarrow> world" where
  "advance w = w\<lparr>step := Suc (step w)\<rparr>"

definition emit :: "event \<Rightarrow> world \<Rightarrow> world" where
  "emit e w = w\<lparr>trace := trace w @ [e]\<rparr>"

definition Date_now :: "env \<Rightarrow> world \<Rightarrow> int \<times> world" where
  "Date_now env w = (now env (step w), advance w)"

definition loadDb :: "world \<Rightarrow> db" where
  "loadDb w = (case disk w of
       None \<Rightarrow> \<lparr>ebayCredentials = None, ebayListings = None\<rparr>
     | Some d \<Rightarrow> d)"

definition saveDb :: "db \<Rightarrow> world \<Rightarrow> world" where
  "saveDb d w = w\<lparr>disk := Some d\<rparr>"

subsection \<open>The data source\<close>

definition getEbayCredentials :: "env \<Rightarrow> world \<Rightarrow> (credentials \<times> string) option" where
  "getEbayCredentials env w =
     (let fromConfig =
            (if configEbayAppId env \<noteq> [] \<and> configEbayCertId env \<noteq> []
             then Some (\<lparr>appId = configEbayAppId env, devId = configEbayDevId env,
                          certId = configEbayCertId env\<rparr>, ''config'')
             else None)
      in case ebayCredentials (loadDb w) of
           None \<Rightarrow> fromConfig
         | Some c \<Rightarrow>
             if appId c \<noteq> [] \<and> certId c \<noteq> [] then Some (c, ''database'')
             else fromConfig)"

definition isEbayApiEnabled :: "env \<Rightarrow> world \<Rightarrow> bool" where
  "isEbayApiEnabled env w = (getEbayCredentials env w \<noteq> None)"

definition toSnapshot :: "string \<Rightarrow> page \<Rightarrow> snapshot" where
  "toSnapshot src p =
     \<lparr>title = title p, currentPrice = currentPrice p, bidCount = bidCount p,
      endTime = endTime p, imageUrl = imageUrl p, description = description p,
      views = views p, watchers = watchers p, listingType = listingType p,
      buyItNowPrice = buyItNowPrice p,
      status = (if isEnded p then ''ended'' else ''active''), source = src\<rparr>"

definition fetchEbayListingViaAPI :: "env \<Rightarrow> string \<Rightarrow> world \<Rightarrow> (string + snapshot) \<times> world" where
  "fetchEbayListingViaAPI env u w =
     (map_sum id (toSnapshot ''api'') (apiResponse env (step w) u),
      emit (ApiCall u) (advance w))"

definition scrapeEbayListing :: "env \<Rightarrow> string \<Rightarrow> world \<Rightarrow> (string + snapshot) \<times> world" where
  "scrapeEbayListing env u w =
     (map_sum id (toSnapshot ''scrape'') (scrapeResponse env (step w) u),
      emit (ScrapeCall u) (advance w))"

definition getEbayListing :: "env \<Rightarrow> string \<Rightarrow> world \<Rightarrow> (string + snapshot) \<times> world" where
  "getEbayListing env u w =
     (if isEbayApiEnabled env w then
        (case fetchEbayListingViaAPI env u w of
           (Inr l, w1) \<Rightarrow> (Inr l, w1)
         | (Inl err, w1) \<Rightarrow> scrapeEbayListing env u w1)
      else scrapeEbayListing env u w)"

subsection \<open>The interval policy\<close>

definition getUpdateIntervalMs :: "env \<Rightarrow> int option \<Rightarrow> world \<Rightarrow> int option \<times> world" where
  "getUpdateIntervalMs env et w =
     (case et of
        None \<Rightarrow> (Some (30 * 60 * 1000), w)
      | Some e \<Rightarrow>
          if e = 0 then (Some (30 * 60 * 1000), w)
          else (case Date_now env w of (nowv, w1) \<Rightarrow>
            (let timeLeft = e - nowv in
             if timeLeft \<le> 0 then None
             else if timeLeft < 60 * 60 * 1000 then Some (2 * 60 * 1000)
             else if timeLeft < 8 * 60 * 60 * 1000 then Some (5 * 60 * 1000)
             else if timeLeft < 3 * 24 * 60 * 60 * 1000 then Some (15 * 60 * 1000)
             else Some (30 * 60 * 1000), w1)))"

subsection \<open>Updating one record\<close>

definition mergeSnapshot :: "listing \<Rightarrow> snapshot \<Rightarrow> int \<Rightarrow> listing" where
  "mergeSnapshot l newData t =
     l\<lparr>title := title newData,
       currentPrice := currentPrice newData,
       bidCount := bidCount newData,
       endTime := endTime newData,
       imageUrl := imageUrl newData,
       description := description newData,
       views := views newData,
       watchers := watchers newData,
       status := status newData,
       source := source newData,
       lastChecked := Some t\<rparr>"

definition hammer :: "nat list" where
  "hammer = [0xD83D, 0xDD28]"

definition checkMark :: "nat list" where
  "checkMark = [0x2705]"

definition replaceHammer :: "nat list \<Rightarrow> nat list" where
  "replaceHammer name =
     (if take 2 name = hammer then checkMark @ drop 2 name else name)"

text \<open>From \<open>let notification = ""\<close> to \<open>channel.send\<close>; \<open>False\<close> is the \<open>catch\<close>.\<close>

definition postNotification ::
  "env \<Rightarrow> string \<Rightarrow> nat list \<Rightarrow> string \<Rightarrow> int \<Rightarrow> bool \<Rightarrow> bool \<Rightarrow> bool \<Rightarrow> snapshot
     \<Rightarrow> world \<Rightarrow> bool \<times> world" where
  "postNotification env channelId chName oldPrice oldBidCount priceChanged bidCountChanged
       justEnded newData w =
     (let w1 = (if justEnded then
                  (let newName = replaceHammer chName in
                   if newName \<noteq> chName then
                     (if setName env (step w) channelId newName
                      then emit (SetName channelId newName) (advance w)
                      else advance w)
                   else w)
                else w);
          notification =
            (if justEnded then
               Some (AuctionEnded (currentPrice newData) (bidCount newData))
             else if priceChanged \<or> bidCountChanged then
               Some (BidUpdate oldPrice oldBidCount (currentPrice newData) (bidCount newData))
             else None)
      in case notification of
           None \<Rightarrow> (True, w1)
         | Some n \<Rightarrow>
             if send env (step w1) channelId
             then (True, emit (Send channelId n) (advance w1))
             else (False, advance w1))"

text \<open>The body of \<open>if (priceChanged || bidCountChanged || justEnded)\<close>.\<close>

definition applySideEffects ::
  "env \<Rightarrow> string \<Rightarrow> listing \<Rightarrow> string \<Rightarrow> int \<Rightarrow> bool \<Rightarrow> bool \<Rightarrow> bool \<Rightarrow> snapshot
     \<Rightarrow> world \<Rightarrow> bool \<times> world" where
  "applySideEffects env channelId l oldPrice oldBidCount priceChanged bidCountChanged
       justEnded newData w =
     (if \<not> guildsFetch env (step w) then (False, advance w)
      else
        (let w1 = advance w in
         case channelsFetch env (step w1) channelId of
           None \<Rightarrow> (True, advance w1)
         | Some chName \<Rightarrow>
             (let w2 = advance w1 in
              case messagesFetch env (step w2) channelId of
                Inl err \<Rightarrow> (False, advance w2)
              | Inr embedMsg \<Rightarrow>
                  (let w3 = advance w2 in
                   if embedMsg then
                     (if messageEdit env (step w3) channelId
                      then postNotification env channelId chName oldPrice oldBidCount
                             priceChanged bidCountChanged justEnded newData
                             (emit (EmbedEdit channelId l) (advance w3))
                      else (False, advance w3))
                   else postNotification env channelId chName oldPrice oldBidCount
                          priceChanged bidCountChanged justEnded newData w3))))"

definition updateEbayListing :: "env \<Rightarrow> string \<Rightarrow> listing \<Rightarrow> world \<Rightarrow> bool \<times> world" where
  "updateEbayListing env channelId l w =
     (case getEbayListing env (url l) w of (r, w1) \<Rightarrow>
        (case r of
           Inl err \<Rightarrow> (False, emit (Fetched channelId r) w1)
         | Inr newData \<Rightarrow>
             (let w2 = emit (Fetched channelId r) w1;
                  oldPrice = currentPrice l;
                  oldBidCount = bidCount l;
                  oldStatus = status l
              in case Date_now env w2 of (t, w3) \<Rightarrow>
                (let l' = mergeSnapshot l newData t;
                     d = loadDb w3
                 in case ebayListings d of
                      None \<Rightarrow> (False, w3)
                    | Some ls \<Rightarrow>
                        (let w4 = saveDb (d\<lparr>ebayListings := Some (AList.update channelId l' ls)\<rparr>) w3;
                             priceChanged = (oldPrice \<noteq> currentPrice newData);
                             bidCountChanged = (oldBidCount \<noteq> bidCount newData);
                             justEnded = (oldStatus = ''active'' \<and> status newData = ''ended'')
                         in if priceChanged \<or> bidCountChanged \<or> justEnded
                            then applySideEffects env channelId l' oldPrice oldBidCount
                                   priceChanged bidCountChanged justEnded newData w4
                            else (True, w4))))))"

subsection \<open>The update loop\<close>

text \<open>The body of the \<open>for\<close> loop, for one entry; \<open>nowv\<close> is the tick's \<open>now\<close>.\<close>

definition processListing :: "env \<Rightarrow> int \<Rightarrow> string \<times> listing \<Rightarrow> world \<Rightarrow> world" where
  "processListing env nowv entry w =
     (case entry of (channelId, l) \<Rightarrow>
        if status l \<in> set [''closed'', ''ended'', ''sold'', ''shipped''] then w
        else (case getUpdateIntervalMs env (endTime l) w of
                (None, w1) \<Rightarrow>
                  snd (updateEbayListing env channelId (l\<lparr>status := ''ended''\<rparr>) w1)
              | (Some interval, w1) \<Rightarrow>
                  (let timeSinceLastCheck =
                         nowv - (case lastChecked l of None \<Rightarrow> 0 | Some c \<Rightarrow> c)
                   in if timeSinceLastCheck \<ge> interval
                      then snd (updateEbayListing env channelId l w1)
                      else w1)))"

text \<open>One firing of the timer.\<close>

definition ebayUpdateTick :: "env \<Rightarrow> world \<Rightarrow> world" where
  "ebayUpdateTick env w =
     (case ebayListings (loadDb w) of
        None \<Rightarrow> w
      | Some ls \<Rightarrow>
          (case Date_now env w of (nowv, w1) \<Rightarrow>
             fold (processListing env nowv) ls w1))"

text \<open>The timer firing \<open>n\<close> times.\<close>

fun startEbayUpdateLoop :: "env \<Rightarrow> nat \<Rightarrow> world \<Rightarrow> world" where
  "startEbayUpdateLoop env 0 w = w"
| "startEbayUpdateLoop env (Suc n) w = startEbayUpdateLoop env n (ebayUpdateTick env w)"

subsection \<open>Observations\<close>

text \<open>
  What the trace says about one record: the outcomes of the data source calls made for
  it, the records from which its embed message was rebuilt, and the notifications posted
  to its channel. \<open>stored\<close> reads a record back from the data file.
\<close>

fun fetchOutcome :: "string \<Rightarrow> event \<Rightarrow> (string + snapshot) option" where
  "fetchOutcome c (Fetched c' r) = (if c = c' then Some r else None)"
| "fetchOutcome c _ = None"

definition fetchesFor :: "string \<Rightarrow> world \<Rightarrow> (string + snapshot) list" where
  "fetchesFor c w = List.map_filter (fetchOutcome c) (trace w)"

fun embedOutcome :: "string \<Rightarrow> event \<Rightarrow> listing option" where
  "embedOutcome c (EmbedEdit c' l) = (if c = c' then Some l else None)"
| "embedOutcome c _ = None"

definition embedEdits :: "string \<Rightarrow> world \<Rightarrow> listing list" where
  "embedEdits c w = List.map_filter (embedOutcome c) (trace w)"

fun sendOutcome :: "string \<Rightarrow> event \<Rightarrow> notification option" where
  "sendOutcome c (Send c' n) = (if c = c' then Some n else None)"
| "sendOutcome c _ = None"

definition notifications :: "string \<Rightarrow> world \<Rightarrow> notification list" where
  "notifications c w = List.map_filter (sendOutcome c) (trace w)"

definition stored :: "world \<Rightarrow> string \<Rightarrow> listing option" where
  "stored w c = (case ebayListings (loadDb w) of None \<Rightarrow> None | Some ls \<Rightarrow> map_of ls c)"

text \<open>
  \<open>quiet w w'\<close>: between \<open>w\<close> and \<open>w'\<close> the data file was not written and no data source
  call was recorded.
\<close>

definition quiet :: "world \<Rightarrow> world \<Rightarrow> bool" where
  "quiet w w' = (disk w' = disk w \<and> step w \<le> step w' \<and> (\<forall>c. fetchesFor c w' = fetchesFor c w))"

subsection \<open>Concrete inputs\<close>

text \<open>
  Pages that the scrape strategy may return, the records that track them, and a record
  whose page cannot be fetched. \<open>pageAEnded\<close> and \<open>pageAEndedBid\<close> are the first page
  once the auction is over, without and with a last bid. The clock of \<open>env0\<close> starts in
  November 2023 and moves one second per interaction; its gateway always answers.
\<close>

definition pageA :: page where
  "pageA = \<lparr>title = ''Lamp'', currentPrice = ''$10.00'', bidCount = 2,
     endTime = Some 1600000000000, imageUrl = None, description = ''Brass lamp'',
     views = 0, watchers = 0, listingType = ''auction'', buyItNowPrice = None,
     isEnded = False\<rparr>"

definition pageB :: page where
  "pageB = \<lparr>title = ''Clock'', currentPrice = ''$12.00'', bidCount = 3,
     endTime = None, imageUrl = None, description = ''Wall clock'',
     views = 7, watchers = 1, listingType = ''auction_with_bin'',
     buyItNowPrice = Some ''$30.00'', isEnded = False\<rparr>"

definition pageC :: page where
  "pageC = \<lparr>title = ''Chair'', currentPrice = ''$20.00'', bidCount = 1,
     endTime = None, imageUrl = None, description = ''Oak chair'',
     views = 3, watchers = 0, listingType = ''auction'', buyItNowPrice = None,
     isEnded = False\<rparr>"

definition listingA :: listing where
  "listingA = \<lparr>title = ''Lamp'', currentPrice = ''$10.00'', bidCount = 2,
     endTime = Some 1600000000000, imageUrl = None, description = ''Brass lamp'',
     views = 0, watchers = 0, listingType = ''auction'', buyItNowPrice = None,
     status = ''active'', source = ''scrape'',
     url = ''https://www.ebay.com/itm/1'', ownerId = ''42'',
     lastChecked = Some 1599999000000, createdAt = 1599000000000\<rparr>"

definition listingB :: listing where
  "listingB = \<lparr>title = ''Clock'', currentPrice = ''$10.00'', bidCount = 2,
     endTime = None, imageUrl = None, description = ''Wall clock'',
     views = 5, watchers = 1, listingType = ''auction'', buyItNowPrice = None,
     status = ''active'', source = ''scrape'',
     url = ''https://www.ebay.com/itm/2'', ownerId = ''42'',
     lastChecked = Some 1699990000000, createdAt = 1699000000000\<rparr>"

definition listingC :: listing where
  "listingC = \<lparr>title = ''Chair'', currentPrice = ''$20.00'', bidCount = 1,
     endTime = None, imageUrl = None, description = ''Oak chair'',
     views = 3, watchers = 0, listingType = ''auction'', buyItNowPrice = None,
     status = ''active'', source = ''scrape'',
     url = ''https://www.ebay.com/itm/4'', ownerId = ''44'',
     lastChecked = Some 1699990000000, createdAt = 1699000000000\<rparr>"

definition listingF :: listing where
  "listingF = \<lparr>title = ''Vase'', currentPrice = ''$5.00'', bidCount = 0,
     endTime = None, imageUrl = None, description = ''Glass vase'',
     views = 1, watchers = 0, listingType = ''auction'', buyItNowPrice = None,
     status = ''active'', source = ''scrape'',
     url = ''https://www.ebay.com/itm/3'', ownerId = ''43'',
     lastChecked = Some 1699990000000, createdAt = 1699000000000\<rparr>"

definition pageAEnded :: page where
  "pageAEnded = \<lparr>title = ''Lamp'', currentPrice = ''$10.00'', bidCount = 2,
     endTime = Some 1600000000000, imageUrl = None, description = ''Brass lamp'',
     views = 0, watchers = 0, listingType = ''auction'', buyItNowPrice = None,
     isEnded = True\<rparr>"

definition pageAEndedBid :: page where
  "pageAEndedBid = \<lparr>title = ''Lamp'', currentPrice = ''$11.00'', bidCount = 3,
     endTime = Some 1600000000000, imageUrl = None, description = ''Brass lamp'',
     views = 0, watchers = 0, listingType = ''auction'', buyItNowPrice = None,
     isEnded = True\<rparr>"

definition scrape0 :: "string \<Rightarrow> string + page" where
  "scrape0 u =
     (if u = ''https://www.ebay.com/itm/1'' then Inr pageA
      else if u = ''https://www.ebay.com/itm/2'' then Inr pageB
      else Inl ''Failed to fetch eBay listing: 500'')"

definition scrape1 :: "string \<Rightarrow> string + page" where
  "scrape1 u = (if u = ''https://www.ebay.com/itm/4'' then Inr pageC else scrape0 u)"

definition env0 :: env where
  "env0 = \<lparr>configEbayAppId = '''', configEbayDevId = '''', configEbayCertId = '''',
     now = (\<lambda>k. 1700000000000 + 1000 * int k),
     apiResponse = (\<lambda>k u. Inl ''eBay API error: 500''),
     scrapeResponse = (\<lambda>k. scrape0),
     guildsFetch = (\<lambda>k. True),
     channelsFetch = (\<lambda>k c. Some (hammer @ [0x61])),
     messagesFetch = (\<lambda>k c. Inr True),
     messageEdit = (\<lambda>k c. True),
     setName = (\<lambda>k c n. True),
     send = (\<lambda>k c. True)\<rparr>"

definition env1 :: env where
  "env1 = env0\<lparr>scrapeResponse := (\<lambda>k. scrape1)\<rparr>"

definition envApi :: env where
  "envApi = env0\<lparr>configEbayAppId := ''app-1'', configEbayCertId := ''cert-1''\<rparr>"

definition envEnded :: env where
  "envEnded = env0\<lparr>scrapeResponse := (\<lambda>k u. Inr pageAEnded)\<rparr>"

definition envEndedBid :: env where
  "envEndedBid = env0\<lparr>scrapeResponse := (\<lambda>k u. Inr pageAEndedBid)\<rparr>"

definition worldOf :: "(string \<times> listing) list \<Rightarrow> world" where
  "worldOf ls = \<lparr>disk = Some \<lparr>ebayCredentials = None, ebayListings = Some ls\<rparr>,
     step = 0, trace = []\<rparr>"

section \<open>Properties of the engine\<close>

subsection \<open>Effects of the primitives and of the gateway\<close>

lemma advance_simps [simp]:
  "disk (advance w) = disk w" "step (advance w) = Suc (step w)" "trace (advance w) = trace w"
  by (simp_all add: advance_def)

lemma emit_simps [simp]:
  "disk (emit e w) = disk w" "step (emit e w) = step w" "trace (emit e w) = trace w @ [e]"
  by (simp_all add: emit_def)

lemma saveDb_simps [simp]:
  "disk (saveDb d w) = Some d" "step (saveDb d w) = step w" "trace (saveDb d w) = trace w"
  by (simp_all add: saveDb_def)

lemma fetchesFor_emit [simp]:
  "fetchesFor c (emit e w) = fetchesFor c w @ (case fetchOutcome c e of None \<Rightarrow> [] | Some r \<Rightarrow> [r])"
  by (simp add: fetchesFor_def List.map_filter_def split: option.splits)

lemma fetchesFor_advance [simp]: "fetchesFor c (advance w) = fetchesFor c w"
  by (simp add: fetchesFor_def)

lemma fetchesFor_saveDb [simp]: "fetchesFor c (saveDb d w) = fetchesFor c w"
  by (simp add: fetchesFor_def)

lemma quiet_refl [simp]: "quiet w w"
  by (simp add: quiet_def)

lemma quiet_trans: "quiet w w1 \<Longrightarrow> quiet w1 w2 \<Longrightarrow> quiet w w2"
  by (auto simp: quiet_def)

lemma quiet_getEbayListing: "quiet w (snd (getEbayListing env u w))"
  by (simp add: quiet_def getEbayListing_def fetchEbayListingViaAPI_def scrapeEbayListing_def
        split: sum.splits prod.splits)

lemma quiet_postNotification:
  "quiet w (snd (postNotification env c chName op ob pc bc je nd w))"
  by (simp add: quiet_def postNotification_def Let_def split: option.splits)

lemma quiet_applySideEffects:
  "quiet w (snd (applySideEffects env c l op ob pc bc je nd w))"
proof -
  have post: "\<And>w'. quiet w w' \<Longrightarrow> quiet w (snd (postNotification env c chName op ob pc bc je nd w'))" for chName
    using quiet_postNotification quiet_trans by blast
  show ?thesis
    unfolding applySideEffects_def Let_def
    by (auto split: option.splits sum.splits intro!: post) (simp_all add: quiet_def)
qed

lemma quiet_getUpdateIntervalMs: "quiet w (snd (getUpdateIntervalMs env et w))"
  by (simp add: quiet_def getUpdateIntervalMs_def Date_now_def Let_def split: option.splits)

lemma loadDb_cong: "disk w' = disk w \<Longrightarrow> loadDb w' = loadDb w"
  by (simp add: loadDb_def)

lemma quiet_loadDb: "quiet w w' \<Longrightarrow> loadDb w' = loadDb w"
  by (simp add: quiet_def loadDb_def)

subsection \<open>One update\<close>

text \<open>
  The data source calls recorded for a record, the clock and the data file after
  \<open>updateEbayListing\<close>, as equations.
\<close>

lemma side_fetchesFor [simp]:
  "fetchesFor x (snd (applySideEffects env c l' op ob pc bc je nd w')) = fetchesFor x w'"
  using quiet_applySideEffects [of w' env c l' op ob pc bc je nd] by (simp add: quiet_def)

lemma side_disk [simp]:
  "disk (snd (applySideEffects env c l' op ob pc bc je nd w')) = disk w'"
  using quiet_applySideEffects [of w' env c l' op ob pc bc je nd] by (simp add: quiet_def)

lemma side_step: "step w' \<le> step (snd (applySideEffects env c l' op ob pc bc je nd w'))"
  using quiet_applySideEffects [of w' env c l' op ob pc bc je nd] by (simp add: quiet_def)

lemma updateEbayListing_fetchesFor:
  "fetchesFor c' (snd (updateEbayListing env c l w)) =
     fetchesFor c' w @ (if c' = c then [fst (getEbayListing env (url l) w)] else [])"
proof -
  obtain r w1 where g: "getEbayListing env (url l) w = (r, w1)"
    by (cases "getEbayListing env (url l) w")
  have q: "\<And>x. fetchesFor x w1 = fetchesFor x w"
    using quiet_getEbayListing [of w env "url l"] g by (simp add: quiet_def)
  show ?thesis
  proof (cases r)
    case (Inl e)
    then show ?thesis using g q
      by (simp add: updateEbayListing_def)
  next
    case (Inr nd)
    then show ?thesis using g q
      by (simp add: updateEbayListing_def Date_now_def Let_def split: option.splits)
  qed
qed

lemma updateEbayListing_step: "step w \<le> step (snd (updateEbayListing env c l w))"
proof -
  obtain r w1 where g: "getEbayListing env (url l) w = (r, w1)"
    by (cases "getEbayListing env (url l) w")
  have q: "step w \<le> step w1"
    using quiet_getEbayListing [of w env "url l"] g by (simp add: quiet_def)
  show ?thesis
  proof (cases r)
    case (Inl e)
    then show ?thesis using g q
      by (simp add: updateEbayListing_def)
  next
    case (Inr nd)
    have s: "step w \<le> step (snd (applySideEffects env c l' op ob pc bc je nd
              (saveDb d (advance (emit (Fetched c r) w1)))))" for l' op ob pc bc je nd d
    proof -
      have "step w \<le> step (saveDb d (advance (emit (Fetched c r) w1)))"
        using q by simp
      then show ?thesis
        using side_step le_trans by blast
    qed
    show ?thesis using Inr g q s
      by (simp add: updateEbayListing_def Date_now_def Let_def split: option.splits)
  qed
qed

lemma updateEbayListing_disk:
  "disk (snd (updateEbayListing env c l w)) =
     (case getEbayListing env (url l) w of
        (Inl e, w1) \<Rightarrow> disk w
      | (Inr nd, w1) \<Rightarrow>
          (case ebayListings (loadDb w) of
             None \<Rightarrow> disk w
           | Some ls \<Rightarrow>
               Some ((loadDb w)\<lparr>ebayListings :=
                  Some (AList.update c (mergeSnapshot l nd (now env (step w1))) ls)\<rparr>)))"
proof -
  obtain r w1 where g: "getEbayListing env (url l) w = (r, w1)"
    by (cases "getEbayListing env (url l) w")
  have q: "disk w1 = disk w"
    using quiet_getEbayListing [of w env "url l"] g by (simp add: quiet_def)
  have ld: "loadDb (advance (emit e w1)) = loadDb w" for e
    using q by (simp add: loadDb_def)
  show ?thesis
  proof (cases r)
    case (Inl e)
    then show ?thesis using g q
      by (simp add: updateEbayListing_def)
  next
    case (Inr nd)
    then show ?thesis using g q
      by (simp add: updateEbayListing_def Date_now_def Let_def ld split: option.splits)
  qed
qed

lemma mergeSnapshot_status [simp]:
  "mergeSnapshot (l\<lparr>status := s\<rparr>) nd t = mergeSnapshot l nd t"
  by (simp add: mergeSnapshot_def)

subsection \<open>One iteration of the loop\<close>

text \<open>
  An iteration either skips its record, and is then quiet, or is one call of
  \<open>updateEbayListing\<close> after a quiet prefix.
\<close>

lemma processListing_cases:
  obtains (skip) "quiet w (processListing env nowv (c, l) w)"
  | (upd) w1 l2 where "quiet w w1" "l2 = l \<or> l2 = l\<lparr>status := ''ended''\<rparr>"
      "processListing env nowv (c, l) w = snd (updateEbayListing env c l2 w1)"
proof -
  obtain iv w1 where g: "getUpdateIntervalMs env (endTime l) w = (iv, w1)"
    by (cases "getUpdateIntervalMs env (endTime l) w")
  have q: "quiet w w1"
    using quiet_getUpdateIntervalMs [of w env "endTime l"] g by simp
  show ?thesis
  proof (cases "status l \<in> set [''closed'', ''ended'', ''sold'', ''shipped'']")
    case True
    then have "processListing env nowv (c, l) w = w" by (simp add: processListing_def)
    then show ?thesis using skip by simp
  next
    case False
    show ?thesis
    proof (cases iv)
      case None
      then have "processListing env nowv (c, l) w =
          snd (updateEbayListing env c (l\<lparr>status := ''ended''\<rparr>) w1)"
        using False g by (simp add: processListing_def)
      then show ?thesis using q upd by blast
    next
      case (Some i)
      then have e: "processListing env nowv (c, l) w =
         (if nowv - (case lastChecked l of None \<Rightarrow> 0 | Some x \<Rightarrow> x) \<ge> i
          then snd (updateEbayListing env c l w1) else w1)"
        using False g by (simp add: processListing_def Let_def)
      show ?thesis
      proof (cases "nowv - (case lastChecked l of None \<Rightarrow> 0 | Some x \<Rightarrow> x) \<ge> i")
        case True
        with e have "processListing env nowv (c, l) w = snd (updateEbayListing env c l w1)"
          by simp
        then show ?thesis using q upd by blast
      next
        case False
        with e have "processListing env nowv (c, l) w = w1" by simp
        then show ?thesis using q skip by simp
      qed
    qed
  qed
qed

lemma stored_disk: "disk w' = disk w \<Longrightarrow> stored w' c = stored w c"
  by (simp add: stored_def loadDb_def)

lemma updateEbayListing_disk_cases:
  obtains (same) "disk (snd (updateEbayListing env c l w)) = disk w"
  | (saved) ls nd w1 where "getEbayListing env (url l) w = (Inr nd, w1)"
      "ebayListings (loadDb w) = Some ls"
      "disk (snd (updateEbayListing env c l w)) =
         Some ((loadDb w)\<lparr>ebayListings :=
            Some (AList.update c (mergeSnapshot l nd (now env (step w1))) ls)\<rparr>)"
proof -
  obtain r w1 where g: "getEbayListing env (url l) w = (r, w1)"
    by (cases "getEbayListing env (url l) w")
  show ?thesis
  proof (cases r)
    case (Inl e)
    with g have "disk (snd (updateEbayListing env c l w)) = disk w"
      by (simp add: updateEbayListing_disk)
    then show ?thesis by (rule same)
  next
    case (Inr nd)
    show ?thesis
    proof (cases "ebayListings (loadDb w)")
      case None
      with g Inr have "disk (snd (updateEbayListing env c l w)) = disk w"
        by (simp add: updateEbayListing_disk)
      then show ?thesis by (rule same)
    next
      case (Some ls)
      with g Inr have "disk (snd (updateEbayListing env c l w)) =
         Some ((loadDb w)\<lparr>ebayListings :=
            Some (AList.update c (mergeSnapshot l nd (now env (step w1))) ls)\<rparr>)"
        by (simp add: updateEbayListing_disk)
      with g Inr Some show ?thesis using saved by blast
    qed
  qed
qed

lemma updateEbayListing_stored_other:
  assumes "c' \<noteq> c"
  shows "stored (snd (updateEbayListing env c l w)) c' = stored w c'"
proof (cases rule: updateEbayListing_disk_cases [of env c l w])
  case same
  then show ?thesis by (rule stored_disk)
next
  case (saved ls nd w1)
  then show ?thesis using assms
    by (simp add: stored_def loadDb_def update_conv')
qed

lemma updateEbayListing_keys:
  assumes "ebayListings (loadDb w) = Some ls" "c \<in> fst ` set ls"
  shows "\<exists>ls'. ebayListings (loadDb (snd (updateEbayListing env c l w))) = Some ls' \<and>
           map fst ls' = map fst ls"
proof (cases rule: updateEbayListing_disk_cases [of env c l w])
  case same
  then have "loadDb (snd (updateEbayListing env c l w)) = loadDb w"
    by (simp add: loadDb_def)
  then show ?thesis using assms by simp
next
  case (saved ls2 nd w1)
  then show ?thesis using assms
    by (simp add: loadDb_def update_keys)
qed

lemma processListing_step: "step w \<le> step (processListing env nowv (c, l) w)"
proof (cases rule: processListing_cases [of w env nowv c l])
  case skip
  then show ?thesis by (simp add: quiet_def)
next
  case (upd w1 l2)
  have "step w \<le> step w1" using upd(1) by (simp add: quiet_def)
  also have "step w1 \<le> step (snd (updateEbayListing env c l2 w1))"
    by (rule updateEbayListing_step)
  finally show ?thesis using upd(3) by simp
qed

lemma processListing_other_fetches:
  assumes "c' \<noteq> c"
  shows "fetchesFor c' (processListing env nowv (c, l) w) = fetchesFor c' w"
proof (cases rule: processListing_cases [of w env nowv c l])
  case skip
  then show ?thesis by (simp add: quiet_def)
next
  case (upd w1 l2)
  then show ?thesis using assms
    by (simp add: updateEbayListing_fetchesFor quiet_def)
qed

lemma processListing_other_stored:
  assumes "c' \<noteq> c"
  shows "stored (processListing env nowv (c, l) w) c' = stored w c'"
proof (cases rule: processListing_cases [of w env nowv c l])
  case skip
  then have "disk (processListing env nowv (c, l) w) = disk w" by (simp add: quiet_def)
  then show ?thesis by (rule stored_disk)
next
  case (upd w1 l2)
  have "disk w1 = disk w" using upd(1) by (simp add: quiet_def)
  then have "stored w1 c' = stored w c'" by (rule stored_disk)
  then show ?thesis using upd(3) assms
    by (simp add: updateEbayListing_stored_other)
qed

lemma processListing_keys:
  assumes "ebayListings (loadDb w) = Some ls" "c \<in> fst ` set ls"
  shows "\<exists>ls'. ebayListings (loadDb (processListing env nowv (c, l) w)) = Some ls' \<and>
           map fst ls' = map fst ls"
proof (cases rule: processListing_cases [of w env nowv c l])
  case skip
  then show ?thesis using assms by (simp add: quiet_loadDb)
next
  case (upd w1 l2)
  from upd(1) assms have "ebayListings (loadDb w1) = Some ls" by (simp add: quiet_loadDb)
  from updateEbayListing_keys [OF this assms(2)] upd(3) show ?thesis by simp
qed

subsection \<open>The whole loop\<close>

text \<open>The loop over a list of entries leaves every record that is not in the list alone.\<close>

lemma fold_frame:
  assumes "ebayListings (loadDb w) = Some ls" "fst ` set xs \<subseteq> fst ` set ls"
  shows "step w \<le> step (fold (processListing env nowv) xs w) \<and>
         (\<exists>ls'. ebayListings (loadDb (fold (processListing env nowv) xs w)) = Some ls' \<and>
                map fst ls' = map fst ls) \<and>
         (\<forall>c. c \<notin> fst ` set xs \<longrightarrow>
            fetchesFor c (fold (processListing env nowv) xs w) = fetchesFor c w \<and>
            stored (fold (processListing env nowv) xs w) c = stored w c)"
  using assms
proof (induction xs arbitrary: w ls)
  case Nil
  then show ?case by simp
next
  case (Cons x xs)
  obtain c l where x: "x = (c, l)" by (cases x)
  let ?w1 = "processListing env nowv (c, l) w"
  have cin: "c \<in> fst ` set ls" using Cons.prems(2) x by auto
  obtain ls1 where l1: "ebayListings (loadDb ?w1) = Some ls1" "map fst ls1 = map fst ls"
    using processListing_keys [OF Cons.prems(1) cin] by blast
  have sub: "fst ` set xs \<subseteq> fst ` set ls1"
  proof -
    have "fst ` set ls1 = fst ` set ls" using l1(2) by (metis set_map)
    then show ?thesis using Cons.prems(2) by auto
  qed
  note ih = Cons.IH [OF l1(1) sub]
  note ih1 = ih [THEN conjunct1]
  note ih2 = ih [THEN conjunct2, THEN conjunct1]
  note ih3 = ih [THEN conjunct2, THEN conjunct2, rule_format]
  have f: "fold (processListing env nowv) (x # xs) w = fold (processListing env nowv) xs ?w1"
    by (simp add: x)
  have s: "step w \<le> step (fold (processListing env nowv) (x # xs) w)"
    unfolding f using ih1 processListing_step [of w env nowv c l] by (rule order_trans [rotated])
  have k: "\<exists>ls'. ebayListings (loadDb (fold (processListing env nowv) (x # xs) w)) = Some ls' \<and>
                map fst ls' = map fst ls"
    unfolding f using ih2 l1(2) by simp
  have o: "\<forall>c'. c' \<notin> fst ` set (x # xs) \<longrightarrow>
            fetchesFor c' (fold (processListing env nowv) (x # xs) w) = fetchesFor c' w \<and>
            stored (fold (processListing env nowv) (x # xs) w) c' = stored w c'"
  proof (intro allI impI)
    fix c'
    assume n: "c' \<notin> fst ` set (x # xs)"
    then have ne: "c' \<noteq> c" and nx: "c' \<notin> fst ` set xs" using x by auto
    from ih3 [OF nx] show "fetchesFor c' (fold (processListing env nowv) (x # xs) w) = fetchesFor c' w \<and>
            stored (fold (processListing env nowv) (x # xs) w) c' = stored w c'"
      unfolding f
      using processListing_other_fetches [OF ne, of env nowv l w]
        processListing_other_stored [OF ne, of env nowv l w]
      by simp
  qed
  show ?case using s k o by (intro conjI)
qed

text \<open>
  With distinct keys, what the loop does to a record of the list is what the loop body
  does to it, in a state that agrees with the initial one on that record.
\<close>

lemma fold_member:
  assumes d: "distinct (map fst xs)" and m: "(c, l) \<in> set xs"
    and e: "ebayListings (loadDb w) = Some ls" and s: "fst ` set xs \<subseteq> fst ` set ls"
  shows "\<exists>wm lsm. step w \<le> step wm \<and> fetchesFor c wm = fetchesFor c w \<and>
           stored wm c = stored w c \<and>
           ebayListings (loadDb wm) = Some lsm \<and> map fst lsm = map fst ls \<and>
           fetchesFor c (fold (processListing env nowv) xs w) =
             fetchesFor c (processListing env nowv (c, l) wm) \<and>
           stored (fold (processListing env nowv) xs w) c =
             stored (processListing env nowv (c, l) wm) c \<and>
           step (processListing env nowv (c, l) wm) \<le> step (fold (processListing env nowv) xs w)"
proof -
  obtain ys zs where sp: "xs = ys @ (c, l) # zs"
    using m by (meson split_list)
  have ny: "c \<notin> fst ` set ys" and nz: "c \<notin> fst ` set zs"
    using d sp by auto
  let ?wm = "fold (processListing env nowv) ys w"
  let ?wp = "processListing env nowv (c, l) ?wm"
  have sy: "fst ` set ys \<subseteq> fst ` set ls" using s sp by auto
  note fy = fold_frame [OF e sy, of env nowv]
  note fy1 = fy [THEN conjunct1]
  note fy2 = fy [THEN conjunct2, THEN conjunct1]
  note fy3 = fy [THEN conjunct2, THEN conjunct2, rule_format, OF ny]
  obtain lsm where lm: "ebayListings (loadDb ?wm) = Some lsm" "map fst lsm = map fst ls"
    using fy2 by (elim exE conjE)
  have setm: "fst ` set lsm = fst ` set ls" using lm(2) by (metis set_map)
  have cin: "c \<in> fst ` set lsm" using s sp setm by auto
  obtain lsp where lp: "ebayListings (loadDb ?wp) = Some lsp" "map fst lsp = map fst lsm"
    using processListing_keys [OF lm(1) cin, of env nowv l] by (elim exE conjE)
  have setp: "fst ` set lsp = fst ` set ls" using lp(2) setm by (metis set_map)
  have sz: "fst ` set zs \<subseteq> fst ` set lsp" using s sp setp by auto
  note fz = fold_frame [OF lp(1) sz, of env nowv]
  note fz1 = fz [THEN conjunct1]
  note fz3 = fz [THEN conjunct2, THEN conjunct2, rule_format, OF nz]
  have f: "fold (processListing env nowv) xs w = fold (processListing env nowv) zs ?wp"
    by (simp add: sp)
  have "step w \<le> step ?wm \<and> fetchesFor c ?wm = fetchesFor c w \<and>
           stored ?wm c = stored w c \<and>
           ebayListings (loadDb ?wm) = Some lsm \<and> map fst lsm = map fst ls \<and>
           fetchesFor c (fold (processListing env nowv) xs w) =
             fetchesFor c (processListing env nowv (c, l) ?wm) \<and>
           stored (fold (processListing env nowv) xs w) c =
             stored (processListing env nowv (c, l) ?wm) c \<and>
           step (processListing env nowv (c, l) ?wm) \<le> step (fold (processListing env nowv) xs w)"
    unfolding f using fy1 fy3 fz1 fz3 lm by simp
  then show ?thesis by (intro exI)
qed

lemma processListing_terminal:
  "status l \<in> set [''closed'', ''ended'', ''sold'', ''shipped''] \<Longrightarrow>
     processListing env nowv (c, l) w = w"
  by (simp add: processListing_def)

lemma processListing_failed:
  assumes "fetchesFor c (processListing env nowv (c, l) w) = fetchesFor c w @ [Inl e]"
  shows "disk (processListing env nowv (c, l) w) = disk w"
proof (cases rule: processListing_cases [of w env nowv c l])
  case skip
  then show ?thesis by (simp add: quiet_def)
next
  case (upd w1 l2)
  have q: "disk w1 = disk w" "fetchesFor c w1 = fetchesFor c w"
    using upd(1) by (simp_all add: quiet_def)
  have "fst (getEbayListing env (url l2) w1) = Inl e"
    using assms upd(3) q by (simp add: updateEbayListing_fetchesFor)
  then have "disk (snd (updateEbayListing env c l2 w1)) = disk w1"
    by (cases "getEbayListing env (url l2) w1") (simp add: updateEbayListing_disk)
  then show ?thesis using upd(3) q by simp
qed

lemma processListing_succeeded:
  assumes "ebayListings (loadDb w) = Some ls"
    and "fetchesFor c (processListing env nowv (c, l) w) = fetchesFor c w @ [Inr nd]"
  shows "\<exists>w0 w1. step w \<le> step w0 \<and> getEbayListing env (url l) w0 = (Inr nd, w1) \<and>
           step w1 \<le> step (processListing env nowv (c, l) w) \<and>
           stored (processListing env nowv (c, l) w) c =
             Some (mergeSnapshot l nd (now env (step w1)))"
proof (cases rule: processListing_cases [of w env nowv c l])
  case skip
  then have "fetchesFor c (processListing env nowv (c, l) w) = fetchesFor c w"
    by (simp add: quiet_def)
  with assms(2) show ?thesis by simp
next
  case (upd w1 l2)
  have q: "disk w1 = disk w" "fetchesFor c w1 = fetchesFor c w" "step w \<le> step w1"
    using upd(1) by (simp_all add: quiet_def)
  have ld: "loadDb w1 = loadDb w" using q(1) by (simp add: loadDb_def)
  have u: "url l2 = url l" using upd(2) by auto
  obtain r w2 where g: "getEbayListing env (url l2) w1 = (r, w2)"
    by (cases "getEbayListing env (url l2) w1")
  have r: "r = Inr nd"
    using assms(2) upd(3) q g by (simp add: updateEbayListing_fetchesFor)
  have m: "mergeSnapshot l2 nd t = mergeSnapshot l nd t" for t
    using upd(2) by auto
  have st: "stored (snd (updateEbayListing env c l2 w1)) c =
          Some (mergeSnapshot l nd (now env (step w2)))"
    using g r ld assms(1) m
    by (simp add: stored_def loadDb_def [of "snd (updateEbayListing env c l2 w1)"]
          updateEbayListing_disk update_conv')
  have s2: "step w2 \<le> step (snd (updateEbayListing env c l2 w1))"
  proof -
    have "step w2 \<le> step (snd (applySideEffects env c l' op ob pc bc je nd
              (saveDb d (advance (emit (Fetched c r) w2)))))" for l' op ob pc bc je d
    proof -
      have "step w2 \<le> step (saveDb d (advance (emit (Fetched c r) w2)))" by simp
      then show ?thesis using side_step le_trans by blast
    qed
    then show ?thesis using g r
      by (simp add: updateEbayListing_def Date_now_def Let_def split: option.splits)
  qed
  have "step w \<le> step w1 \<and> getEbayListing env (url l) w1 = (Inr nd, w2) \<and>
           step w2 \<le> step (processListing env nowv (c, l) w) \<and>
           stored (processListing env nowv (c, l) w) c =
             Some (mergeSnapshot l nd (now env (step w2)))"
    using q(3) g r u st s2 upd(3) by simp
  then show ?thesis by (intro exI)
qed

lemma getUpdateIntervalMs_le:
  "fst (getUpdateIntervalMs env et w) = Some i \<Longrightarrow> i \<le> 30 * 60 * 1000"
  by (auto simp: getUpdateIntervalMs_def Date_now_def Let_def split: option.splits if_splits)

lemma processListing_overdue:
  assumes nt: "status l \<notin> set [''closed'', ''ended'', ''sold'', ''shipped'']"
    and od: "30 * 60 * 1000 \<le> nowv - (case lastChecked l of None \<Rightarrow> 0 | Some x \<Rightarrow> x)"
  shows "\<exists>r. fetchesFor c (processListing env nowv (c, l) w) = fetchesFor c w @ [r]"
proof -
  obtain iv w1 where g: "getUpdateIntervalMs env (endTime l) w = (iv, w1)"
    by (cases "getUpdateIntervalMs env (endTime l) w")
  have q: "fetchesFor c w1 = fetchesFor c w"
    using quiet_getUpdateIntervalMs [of w env "endTime l"] g by (simp add: quiet_def)
  show ?thesis
  proof (cases iv)
    case None
    then have "processListing env nowv (c, l) w =
          snd (updateEbayListing env c (l\<lparr>status := ''ended''\<rparr>) w1)"
      using nt g by (simp add: processListing_def)
    then show ?thesis using q by (simp add: updateEbayListing_fetchesFor)
  next
    case (Some i)
    then have "i \<le> 30 * 60 * 1000"
      using getUpdateIntervalMs_le [of env "endTime l" w i] g by simp
    then have "i \<le> nowv - (case lastChecked l of None \<Rightarrow> 0 | Some x \<Rightarrow> x)"
      using od by linarith
    then have "processListing env nowv (c, l) w = snd (updateEbayListing env c l w1)"
      using nt g Some by (simp add: processListing_def Let_def)
    then show ?thesis using q by (simp add: updateEbayListing_fetchesFor)
  qed
qed

subsection \<open>One tick\<close>

lemma ebayUpdateTick_fold:
  "ebayListings (loadDb w) = Some ls \<Longrightarrow>
     ebayUpdateTick env w = fold (processListing env (now env (step w))) ls (advance w)"
  by (simp add: ebayUpdateTick_def Date_now_def)

lemma loadDb_advance [simp]: "loadDb (advance w) = loadDb w"
  by (simp add: loadDb_def)

lemma stored_advance [simp]: "stored (advance w) c = stored w c"
  by (simp add: stored_def)

lemma stored_member:
  "ebayListings (loadDb w) = Some ls \<Longrightarrow> distinct (map fst ls) \<Longrightarrow> (c, l) \<in> set ls \<Longrightarrow>
     stored w c = Some l"
  by (simp add: stored_def)

lemma tick_keys:
  assumes "ebayListings (loadDb w) = Some ls"
  shows "\<exists>ls'. ebayListings (loadDb (ebayUpdateTick env w)) = Some ls' \<and>
           map fst ls' = map fst ls"
proof -
  have e: "ebayListings (loadDb (advance w)) = Some ls" using assms by simp
  from fold_frame [OF e subset_refl, of env "now env (step w)", THEN conjunct2, THEN conjunct1]
  show ?thesis by (simp add: ebayUpdateTick_fold [OF assms])
qed

lemma tick_member:
  assumes e: "ebayListings (loadDb w) = Some ls" and d: "distinct (map fst ls)"
    and m: "(c, l) \<in> set ls"
  shows "\<exists>wm lsm. step w < step wm \<and> fetchesFor c wm = fetchesFor c w \<and>
           stored wm c = Some l \<and> ebayListings (loadDb wm) = Some lsm \<and>
           fetchesFor c (ebayUpdateTick env w) =
             fetchesFor c (processListing env (now env (step w)) (c, l) wm) \<and>
           stored (ebayUpdateTick env w) c =
             stored (processListing env (now env (step w)) (c, l) wm) c \<and>
           step (processListing env (now env (step w)) (c, l) wm) \<le>
             step (ebayUpdateTick env w)"
proof -
  have e': "ebayListings (loadDb (advance w)) = Some ls" using e by simp
  from fold_member [OF d m e' subset_refl, of env "now env (step w)"]
  obtain wm lsm where wm: "step (advance w) \<le> step wm"
    "fetchesFor c wm = fetchesFor c (advance w)"
    "stored wm c = stored (advance w) c"
    "ebayListings (loadDb wm) = Some lsm"
    "fetchesFor c (fold (processListing env (now env (step w))) ls (advance w)) =
       fetchesFor c (processListing env (now env (step w)) (c, l) wm)"
    "stored (fold (processListing env (now env (step w))) ls (advance w)) c =
       stored (processListing env (now env (step w)) (c, l) wm) c"
    "step (processListing env (now env (step w)) (c, l) wm) \<le>
       step (fold (processListing env (now env (step w))) ls (advance w))"
    by (elim exE conjE)
  have "step w < step wm" using wm(1) by simp
  moreover have "stored wm c = Some l"
    using wm(3) stored_member [OF e d m] by simp
  moreover have "fetchesFor c wm = fetchesFor c w" using wm(2) by simp
  ultimately show ?thesis
    using wm(4-7) unfolding ebayUpdateTick_fold [OF e] by (intro exI conjI)
qed

lemma tick_terminal:
  assumes e: "ebayListings (loadDb w) = Some ls" and d: "distinct (map fst ls)"
    and m: "(c, l) \<in> set ls"
    and t: "status l \<in> set [''closed'', ''ended'', ''sold'', ''shipped'']"
  shows "fetchesFor c (ebayUpdateTick env w) = fetchesFor c w"
    and "stored (ebayUpdateTick env w) c = Some l"
proof -
  from tick_member [OF e d m, of env]
  obtain wm lsm where wm: "fetchesFor c wm = fetchesFor c w" "stored wm c = Some l"
    "fetchesFor c (ebayUpdateTick env w) =
       fetchesFor c (processListing env (now env (step w)) (c, l) wm)"
    "stored (ebayUpdateTick env w) c =
       stored (processListing env (now env (step w)) (c, l) wm) c"
    by (elim exE conjE)
  show "fetchesFor c (ebayUpdateTick env w) = fetchesFor c w"
    using wm(1,3) by (simp add: processListing_terminal [OF t])
  show "stored (ebayUpdateTick env w) c = Some l"
    using wm(2,4) by (simp add: processListing_terminal [OF t])
qed

lemma tick_failed:
  assumes e: "ebayListings (loadDb w) = Some ls" and d: "distinct (map fst ls)"
    and m: "(c, l) \<in> set ls"
    and f: "fetchesFor c (ebayUpdateTick env w) = fetchesFor c w @ [Inl err]"
  shows "stored (ebayUpdateTick env w) c = Some l"
proof -
  from tick_member [OF e d m, of env]
  obtain wm lsm where wm: "fetchesFor c wm = fetchesFor c w" "stored wm c = Some l"
    "fetchesFor c (ebayUpdateTick env w) =
       fetchesFor c (processListing env (now env (step w)) (c, l) wm)"
    "stored (ebayUpdateTick env w) c =
       stored (processListing env (now env (step w)) (c, l) wm) c"
    by (elim exE conjE)
  have "fetchesFor c (processListing env (now env (step w)) (c, l) wm) =
          fetchesFor c wm @ [Inl err]"
    using f wm(1,3) by simp
  then have "disk (processListing env (now env (step w)) (c, l) wm) = disk wm"
    by (rule processListing_failed)
  then have "stored (processListing env (now env (step w)) (c, l) wm) c = stored wm c"
    by (rule stored_disk)
  then show ?thesis using wm(2,4) by simp
qed

lemma tick_succeeded:
  assumes e: "ebayListings (loadDb w) = Some ls" and d: "distinct (map fst ls)"
    and m: "(c, l) \<in> set ls"
    and f: "fetchesFor c (ebayUpdateTick env w) = fetchesFor c w @ [Inr nd]"
  shows "\<exists>w0 w1. step w < step w0 \<and> getEbayListing env (url l) w0 = (Inr nd, w1) \<and>
           step w1 \<le> step (ebayUpdateTick env w) \<and>
           stored (ebayUpdateTick env w) c = Some (mergeSnapshot l nd (now env (step w1)))"
proof -
  from tick_member [OF e d m, of env]
  obtain wm lsm where wm: "step w < step wm" "fetchesFor c wm = fetchesFor c w"
    "ebayListings (loadDb wm) = Some lsm"
    "fetchesFor c (ebayUpdateTick env w) =
       fetchesFor c (processListing env (now env (step w)) (c, l) wm)"
    "stored (ebayUpdateTick env w) c =
       stored (processListing env (now env (step w)) (c, l) wm) c"
    "step (processListing env (now env (step w)) (c, l) wm) \<le> step (ebayUpdateTick env w)"
    by (elim exE conjE)
  have "fetchesFor c (processListing env (now env (step w)) (c, l) wm) =
          fetchesFor c wm @ [Inr nd]"
    using f wm(2,4) by simp
  from processListing_succeeded [OF wm(3) this]
  obtain w0 w1 where p: "step wm \<le> step w0" "getEbayListing env (url l) w0 = (Inr nd, w1)"
    "step w1 \<le> step (processListing env (now env (step w)) (c, l) wm)"
    "stored (processListing env (now env (step w)) (c, l) wm) c =
       Some (mergeSnapshot l nd (now env (step w1)))"
    by (elim exE conjE)
  have "step w < step w0 \<and> getEbayListing env (url l) w0 = (Inr nd, w1) \<and>
           step w1 \<le> step (ebayUpdateTick env w) \<and>
           stored (ebayUpdateTick env w) c = Some (mergeSnapshot l nd (now env (step w1)))"
    using wm(1,5,6) p by simp
  then show ?thesis by (intro exI)
qed

lemma tick_overdue:
  assumes e: "ebayListings (loadDb w) = Some ls" and d: "distinct (map fst ls)"
    and m: "(c, l) \<in> set ls"
    and nt: "status l \<notin> set [''closed'', ''ended'', ''sold'', ''shipped'']"
    and od: "30 * 60 * 1000 \<le> now env (step w) - (case lastChecked l of None \<Rightarrow> 0 | Some x \<Rightarrow> x)"
  shows "\<exists>r. fetchesFor c (ebayUpdateTick env w) = fetchesFor c w @ [r]"
proof -
  from tick_member [OF e d m, of env]
  obtain wm lsm where wm: "fetchesFor c wm = fetchesFor c w"
    "fetchesFor c (ebayUpdateTick env w) =
       fetchesFor c (processListing env (now env (step w)) (c, l) wm)"
    by (elim exE conjE)
  from processListing_overdue [OF nt od, of c env wm] show ?thesis
    using wm by simp
qed

subsection \<open>Evaluation and the gateway\<close>

lemmas engine_defs =
  ebayUpdateTick_def loadDb_def Date_now_def processListing_def getUpdateIntervalMs_def
  updateEbayListing_def getEbayListing_def isEbayApiEnabled_def getEbayCredentials_def
  scrapeEbayListing_def fetchEbayListingViaAPI_def toSnapshot_def mergeSnapshot_def
  saveDb_def advance_def emit_def applySideEffects_def postNotification_def
  replaceHammer_def hammer_def checkMark_def stored_def fetchesFor_def embedEdits_def
  notifications_def List.map_filter_def Let_def

lemmas input_defs = env0_def env1_def envEnded_def envEndedBid_def worldOf_def scrape0_def
  scrape1_def pageA_def pageB_def pageC_def pageAEnded_def pageAEndedBid_def listingA_def
  listingB_def listingC_def listingF_def

lemma embedEdits_simps [simp]:
  "embedEdits c (advance w) = embedEdits c w"
  "embedEdits c (saveDb d w) = embedEdits c w"
  "embedEdits c (emit e w) =
     embedEdits c w @ (case embedOutcome c e of None \<Rightarrow> [] | Some l \<Rightarrow> [l])"
  by (simp_all add: embedEdits_def List.map_filter_def split: option.splits)

lemma notifications_simps [simp]:
  "notifications c (advance w) = notifications c w"
  "notifications c (saveDb d w) = notifications c w"
  "notifications c (emit e w) =
     notifications c w @ (case sendOutcome c e of None \<Rightarrow> [] | Some n \<Rightarrow> [n])"
  by (simp_all add: notifications_def List.map_filter_def split: option.splits)

lemma loadDb_emit [simp]: "loadDb (emit e w) = loadDb w"
  by (simp add: loadDb_def)

lemma getEbayListing_gateway [simp]:
  "embedEdits c (snd (getEbayListing env u w)) = embedEdits c w"
  "notifications c (snd (getEbayListing env u w)) = notifications c w"
  by (simp_all add: getEbayListing_def fetchEbayListingViaAPI_def scrapeEbayListing_def
        split: sum.splits prod.splits)

lemma postNotification_embedEdits [simp]:
  "embedEdits x (snd (postNotification env c chName op ob pc bc je nd w)) = embedEdits x w"
  by (simp add: postNotification_def Let_def split: option.splits)

lemma applySideEffects_embedEdits:
  "embedEdits c (snd (applySideEffects env c l op ob pc bc je nd w)) =
     embedEdits c w @
       (if guildsFetch env (step w) \<and> channelsFetch env (step w + 1) c \<noteq> None \<and>
           messagesFetch env (step w + 2) c = Inr True \<and> messageEdit env (step w + 3) c
        then [l] else [])"
  by (auto simp: applySideEffects_def Let_def numeral_3_eq_3 split: option.splits sum.splits)

lemma updateEbayListing_lastChecked:
  "updateEbayListing env c (l\<lparr>lastChecked := x\<rparr>) w = updateEbayListing env c l w"
  "updateEbayListing env c (l\<lparr>lastChecked := x, status := s\<rparr>) w =
     updateEbayListing env c (l\<lparr>status := s\<rparr>) w"
  by (simp_all add: updateEbayListing_def mergeSnapshot_def Let_def Date_now_def
        split: prod.splits sum.splits option.splits)

lemma fetchB:
  "getEbayListing env0 (url listingB) (worldOf [(''c2'', listingB)]) =
     (Inr (toSnapshot ''scrape'' pageB),
      snd (getEbayListing env0 (url listingB) (worldOf [(''c2'', listingB)])))"
  "step (snd (getEbayListing env0 (url listingB) (worldOf [(''c2'', listingB)]))) = 1"
  by (simp_all add: getEbayListing_def isEbayApiEnabled_def getEbayCredentials_def
        scrapeEbayListing_def loadDb_def advance_def emit_def input_defs)

lemma worldOf_simps:
  "ebayListings (loadDb (worldOf ls)) = Some ls"
  "step (worldOf ls) = 0"
  "fetchesFor c (worldOf ls) = []"
  "embedEdits c (worldOf ls) = []"
  "notifications c (worldOf ls) = []"
  by (simp_all add: worldOf_def loadDb_def fetchesFor_def embedEdits_def notifications_def
        List.map_filter_def)

lemma changedB:
  "currentPrice listingB \<noteq> currentPrice (toSnapshot ''scrape'' pageB)"
  "currentPrice listingB = ''$10.00''" "bidCount listingB = 2"
  "currentPrice (toSnapshot ''scrape'' pageB) = ''$12.00''"
  "bidCount (toSnapshot ''scrape'' pageB) = 3"
  "status (toSnapshot ''scrape'' pageB) = ''active''"
  by (simp_all add: listingB_def pageB_def toSnapshot_def)

section \<open>The claims\<close>

text \<open>
  C1 (a record past its deadline ends up with status \<open>ended\<close> after the tick's fetch,
  whatever status the snapshot carries). The loop sets \<open>listing.status = "ended"\<close> before
  it calls \<open>updateEbayListing\<close>, and the merge there assigns \<open>newData.status\<close> afterwards.
  On a record with status \<open>active\<close> whose end time is long past, with a data source that
  still reports \<open>active\<close>, the tick performs one successful fetch and the stored status
  is \<open>active\<close>.
\<close>

theorem deadline_tick_keeps_snapshot_status:
  "status listingA = ''active'' \<and> endTime listingA = Some 1600000000000 \<and>
   now env0 0 = 1700000000000 \<and>
   fetchesFor ''c1'' (ebayUpdateTick env0 (worldOf [(''c1'', listingA)])) =
     [Inr (toSnapshot ''scrape'' pageA)] \<and>
   status (toSnapshot ''scrape'' pageA) = ''active'' \<and>
   map_option status (stored (ebayUpdateTick env0 (worldOf [(''c1'', listingA)])) ''c1'') =
     Some ''active''"
  by (simp add: engine_defs input_defs)

text \<open>
  C2 (one tick moves a record past its deadline to \<open>ended\<close> with exactly one fetch, and
  later ticks do not fetch it). On the same input the first tick performs one fetch and
  leaves the status \<open>active\<close>, so the second tick fetches the record again: two fetches
  after two ticks.
\<close>

theorem deadline_record_fetched_again:
  "status listingA = ''active'' \<and> endTime listingA = Some 1600000000000 \<and>
   now env0 0 = 1700000000000 \<and>
   length (fetchesFor ''c1'' (startEbayUpdateLoop env0 1 (worldOf [(''c1'', listingA)]))) = 1 \<and>
   map_option status (stored (startEbayUpdateLoop env0 1 (worldOf [(''c1'', listingA)])) ''c1'') =
     Some ''active'' \<and>
   length (fetchesFor ''c1'' (startEbayUpdateLoop env0 2 (worldOf [(''c1'', listingA)]))) = 2"
  by (simp add: engine_defs input_defs numeral_2_eq_2)

text \<open>
  C3: a record whose status is \<open>closed\<close>, \<open>ended\<close>, \<open>sold\<close> or \<open>shipped\<close> is skipped by
  every tick. However often the timer fires and whatever the outside answers, the data
  source is never called for the record and the stored record stays exactly as it was
  (\<open>lastChecked\<close> included).
\<close>

theorem terminal_records_skipped_forever:
  assumes "ebayListings (loadDb w) = Some ls" and "distinct (map fst ls)"
    and "(c, l) \<in> set ls"
    and "status l \<in> set [''closed'', ''ended'', ''sold'', ''shipped'']"
  shows "fetchesFor c (startEbayUpdateLoop env n w) = fetchesFor c w \<and>
         stored (startEbayUpdateLoop env n w) c = Some l"
  using assms
proof (induction n arbitrary: w ls)
  case 0
  then show ?case by (simp add: stored_member)
next
  case (Suc n)
  let ?w1 = "ebayUpdateTick env w"
  obtain ls1 where l1: "ebayListings (loadDb ?w1) = Some ls1" "map fst ls1 = map fst ls"
    using tick_keys [OF Suc.prems(1), of env] by (elim exE conjE)
  have d1: "distinct (map fst ls1)" using l1(2) Suc.prems(2) by simp
  have f1: "fetchesFor c ?w1 = fetchesFor c w"
    by (rule tick_terminal(1) [OF Suc.prems])
  have "stored ?w1 c = Some l"
    by (rule tick_terminal(2) [OF Suc.prems])
  then have m1: "(c, l) \<in> set ls1"
    using l1(1) by (simp add: stored_def map_of_SomeD)
  from Suc.IH [OF l1(1) d1 m1 Suc.prems(4)] f1 show ?case by simp
qed

theorem terminal_records_skipped_forever_witness:
  "ebayListings (loadDb (worldOf [(''c1'', listingA\<lparr>status := ''sold''\<rparr>), (''c2'', listingB)])) =
     Some [(''c1'', listingA\<lparr>status := ''sold''\<rparr>), (''c2'', listingB)] \<and>
   distinct (map fst [(''c1'', listingA\<lparr>status := ''sold''\<rparr>), (''c2'', listingB)]) \<and>
   status (listingA\<lparr>status := ''sold''\<rparr>) \<in> set [''closed'', ''ended'', ''sold'', ''shipped''] \<and>
   fetchesFor ''c1'' (startEbayUpdateLoop env0 3
       (worldOf [(''c1'', listingA\<lparr>status := ''sold''\<rparr>), (''c2'', listingB)])) = [] \<and>
   stored (startEbayUpdateLoop env0 3
       (worldOf [(''c1'', listingA\<lparr>status := ''sold''\<rparr>), (''c2'', listingB)])) ''c1'' =
     Some (listingA\<lparr>status := ''sold''\<rparr>)"
proof -
  let ?ls = "[(''c1'', listingA\<lparr>status := ''sold''\<rparr>), (''c2'', listingB)]"
  have e: "ebayListings (loadDb (worldOf ?ls)) = Some ?ls"
    by (simp add: worldOf_def loadDb_def)
  have d: "distinct (map fst ?ls)" by simp
  have m: "(''c1'', listingA\<lparr>status := ''sold''\<rparr>) \<in> set ?ls" by simp
  have t: "status (listingA\<lparr>status := ''sold''\<rparr>) \<in> set [''closed'', ''ended'', ''sold'', ''shipped'']"
    by simp
  have f: "fetchesFor ''c1'' (worldOf ?ls) = []"
    by (simp add: fetchesFor_def worldOf_def List.map_filter_def)
  show ?thesis
    using terminal_records_skipped_forever [OF e d m t, of env0 3] e d t f by simp
qed

text \<open>
  C4, amended: the interval policy. An unknown end time gives 30 minutes. For a non-zero
  end time, with \<open>r\<close> the time left at the clock reading of the call: \<open>r \<le> 0\<close> gives
  \<open>null\<close>, \<open>0 < r < 1h\<close> gives 2 minutes, \<open>1h \<le> r < 8h\<close> gives 5 minutes,
  \<open>8h \<le> r < 3d\<close> gives 15 minutes and \<open>3d \<le> r\<close> gives 30 minutes. (The claim puts
  \<open>r = 0\<close> in the 2-minute band; the code's test is \<open>timeLeft <= 0\<close>.)
\<close>

theorem getUpdateIntervalMs_table:
  "fst (getUpdateIntervalMs env None w) = Some (30 * 60 * 1000) \<and>
   (e \<noteq> 0 \<longrightarrow>
      (e - now env (step w) \<le> 0 \<longrightarrow>
         fst (getUpdateIntervalMs env (Some e) w) = None) \<and>
      (0 < e - now env (step w) \<and> e - now env (step w) < 60 * 60 * 1000 \<longrightarrow>
         fst (getUpdateIntervalMs env (Some e) w) = Some (2 * 60 * 1000)) \<and>
      (60 * 60 * 1000 \<le> e - now env (step w) \<and> e - now env (step w) < 8 * 60 * 60 * 1000 \<longrightarrow>
         fst (getUpdateIntervalMs env (Some e) w) = Some (5 * 60 * 1000)) \<and>
      (8 * 60 * 60 * 1000 \<le> e - now env (step w) \<and>
       e - now env (step w) < 3 * 24 * 60 * 60 * 1000 \<longrightarrow>
         fst (getUpdateIntervalMs env (Some e) w) = Some (15 * 60 * 1000)) \<and>
      (3 * 24 * 60 * 60 * 1000 \<le> e - now env (step w) \<longrightarrow>
         fst (getUpdateIntervalMs env (Some e) w) = Some (30 * 60 * 1000)))"
  by (simp add: getUpdateIntervalMs_def Date_now_def Let_def)

theorem getUpdateIntervalMs_table_witness:
  "(1700003600000::int) \<noteq> 0 \<and>
   60 * 60 * 1000 \<le> 1700003600000 - now env0 (step (worldOf [])) \<and>
   1700003600000 - now env0 (step (worldOf [])) < 8 * 60 * 60 * 1000 \<and>
   fst (getUpdateIntervalMs env0 (Some 1700003600000) (worldOf [])) = Some (5 * 60 * 1000)"
  using getUpdateIntervalMs_table [of env0 "worldOf []" 1700003600000]
  by (simp add: env0_def worldOf_def)

theorem getUpdateIntervalMs_zero_left_counterexample:
  "\<not> (1700000000000 - now env0 (step (worldOf [])) \<in> {0..<60 * 60 * 1000} \<longrightarrow>
       fst (getUpdateIntervalMs env0 (Some 1700000000000) (worldOf [])) = Some (2 * 60 * 1000))"
  by (simp add: getUpdateIntervalMs_def Date_now_def Let_def env0_def worldOf_def)

text \<open>
  C5, amended: after a completed fetch the embed message is edited, once and from the
  merged record, exactly when the price string or the bid count changed or the record
  went from \<open>active\<close> to \<open>ended\<close>, and the guild and the channel were fetched, the bot's
  embed message was found and the edit succeeded. With price, bid count and status all
  unchanged there is no edit. The old status is that of the listing object handed to
  \<open>updateEbayListing\<close>.
\<close>

theorem embed_refresh_gated:
  assumes "getEbayListing env (url l) w = (Inr nd, w1)"
    and "ebayListings (loadDb w) = Some ls"
  shows "embedEdits c (snd (updateEbayListing env c l w)) =
     embedEdits c w @
       (if (currentPrice l \<noteq> currentPrice nd \<or> bidCount l \<noteq> bidCount nd \<or>
            (status l = ''active'' \<and> status nd = ''ended'')) \<and>
           guildsFetch env (step w1 + 1) \<and> channelsFetch env (step w1 + 2) c \<noteq> None \<and>
           messagesFetch env (step w1 + 3) c = Inr True \<and> messageEdit env (step w1 + 4) c
        then [mergeSnapshot l nd (now env (step w1))] else [])"
proof -
  have q: "disk w1 = disk w" "embedEdits c w1 = embedEdits c w"
    using quiet_getEbayListing [of w env "url l"] getEbayListing_gateway(1) [of c env "url l" w]
      assms(1) by (simp_all add: quiet_def)
  have ld: "loadDb w1 = loadDb w"
    using q by (simp add: loadDb_def)
  show ?thesis
    using assms q
    by (simp add: updateEbayListing_def Date_now_def Let_def ld applySideEffects_embedEdits
          numeral_3_eq_3 numeral_eq_Suc)
qed

theorem embed_refresh_gated_witness:
  "getEbayListing env0 (url listingB) (worldOf [(''c2'', listingB)]) =
     (Inr (toSnapshot ''scrape'' pageB),
      snd (getEbayListing env0 (url listingB) (worldOf [(''c2'', listingB)]))) \<and>
   ebayListings (loadDb (worldOf [(''c2'', listingB)])) = Some [(''c2'', listingB)] \<and>
   embedEdits ''c2'' (snd (updateEbayListing env0 ''c2'' listingB (worldOf [(''c2'', listingB)]))) =
     [mergeSnapshot listingB (toSnapshot ''scrape'' pageB) (now env0 1)]"
  using embed_refresh_gated [OF fetchB(1) worldOf_simps(1), of "''c2''"]
    fetchB worldOf_simps(1) [of "[(''c2'', listingB)]"]
  by (simp add: worldOf_simps changedB env0_def)

theorem embed_refresh_unconditional_counterexample:
  "currentPrice (toSnapshot ''scrape'' pageC) = currentPrice listingC \<and>
   bidCount (toSnapshot ''scrape'' pageC) = bidCount listingC \<and>
   status (toSnapshot ''scrape'' pageC) = status listingC \<and>
   fetchesFor ''c4'' (ebayUpdateTick env1 (worldOf [(''c4'', listingC)])) =
     [Inr (toSnapshot ''scrape'' pageC)] \<and>
   map_option lastChecked (stored (ebayUpdateTick env1 (worldOf [(''c4'', listingC)])) ''c4'') =
     Some (Some 1700000002000) \<and>
   embedEdits ''c4'' (ebayUpdateTick env1 (worldOf [(''c4'', listingC)])) = []"
  by (simp add: engine_defs input_defs)

text \<open>
  C6 (after every completed fetch exactly one notification is posted if and only if the
  price or the bid count changed or the record just ended, in the ended form when it just
  ended). On the deadline path the loop has already set \<open>listing.status = "ended"\<close> when
  \<open>updateEbayListing\<close> reads \<open>oldStatus\<close>, so \<open>justEnded\<close> is false there. With a working
  gateway, a record stored as \<open>active\<close> whose deadline has passed and whose snapshot says
  \<open>ended\<close> with the same price and bid count becomes \<open>ended\<close> in the store and nothing is
  posted; with a changed price the update form is posted instead of the ended form. The
  same update on the unmodified record posts the ended form.
\<close>

theorem deadline_tick_posts_no_ended_notice:
  "status listingA = ''active'' \<and> endTime listingA = Some 1600000000000 \<and>
   now envEnded 0 = 1700000000000 \<and>
   fetchesFor ''c1'' (ebayUpdateTick envEnded (worldOf [(''c1'', listingA)])) =
     [Inr (toSnapshot ''scrape'' pageAEnded)] \<and>
   status (toSnapshot ''scrape'' pageAEnded) = ''ended'' \<and>
   map_option status (stored (ebayUpdateTick envEnded (worldOf [(''c1'', listingA)])) ''c1'') =
     Some ''ended'' \<and>
   notifications ''c1'' (ebayUpdateTick envEnded (worldOf [(''c1'', listingA)])) = [] \<and>
   notifications ''c1'' (ebayUpdateTick envEndedBid (worldOf [(''c1'', listingA)])) =
     [BidUpdate ''$10.00'' 2 ''$11.00'' 3] \<and>
   notifications ''c1''
     (snd (updateEbayListing envEnded ''c1'' listingA (worldOf [(''c1'', listingA)]))) =
     [AuctionEnded ''$10.00'' 2]"
  by (simp add: engine_defs input_defs)

text \<open>
  C7, amended: the merge of a successful fetch replaces title, price, bid count, end time,
  image, description, views, watchers, status and source by the snapshot's values and
  sets \<open>lastChecked\<close> to the clock reading taken when the fetch has returned. It leaves
  \<open>url\<close>, \<open>ownerId\<close>, \<open>createdAt\<close> and also \<open>listingType\<close> and \<open>buyItNowPrice\<close> as they
  were. A loop iteration that makes no fetch for its record writes nothing.
\<close>

theorem merge_frame:
  assumes "getEbayListing env (url l) w = (Inr nd, w1)"
    and "ebayListings (loadDb w) = Some ls"
  shows "(\<exists>l'. stored (snd (updateEbayListing env c l w)) c = Some l' \<and>
            title l' = title nd \<and> currentPrice l' = currentPrice nd \<and>
            bidCount l' = bidCount nd \<and> endTime l' = endTime nd \<and>
            imageUrl l' = imageUrl nd \<and> description l' = description nd \<and>
            views l' = views nd \<and> watchers l' = watchers nd \<and>
            status l' = status nd \<and> source l' = source nd \<and>
            lastChecked l' = Some (now env (step w1)) \<and>
            url l' = url l \<and> ownerId l' = ownerId l \<and> createdAt l' = createdAt l \<and>
            listingType l' = listingType l \<and> buyItNowPrice l' = buyItNowPrice l) \<and>
         (fetchesFor c (processListing env nowv (c, l0) w0) = fetchesFor c w0 \<longrightarrow>
            disk (processListing env nowv (c, l0) w0) = disk w0)"
proof
  have "stored (snd (updateEbayListing env c l w)) c =
          Some (mergeSnapshot l nd (now env (step w1)))"
    using assms
    by (simp add: stored_def loadDb_def [of "snd (updateEbayListing env c l w)"]
          updateEbayListing_disk update_conv')
  then show "\<exists>l'. stored (snd (updateEbayListing env c l w)) c = Some l' \<and>
            title l' = title nd \<and> currentPrice l' = currentPrice nd \<and>
            bidCount l' = bidCount nd \<and> endTime l' = endTime nd \<and>
            imageUrl l' = imageUrl nd \<and> description l' = description nd \<and>
            views l' = views nd \<and> watchers l' = watchers nd \<and>
            status l' = status nd \<and> source l' = source nd \<and>
            lastChecked l' = Some (now env (step w1)) \<and>
            url l' = url l \<and> ownerId l' = ownerId l \<and> createdAt l' = createdAt l \<and>
            listingType l' = listingType l \<and> buyItNowPrice l' = buyItNowPrice l"
    by (simp add: mergeSnapshot_def)
next
  show "fetchesFor c (processListing env nowv (c, l0) w0) = fetchesFor c w0 \<longrightarrow>
            disk (processListing env nowv (c, l0) w0) = disk w0"
  proof (intro impI)
    assume a: "fetchesFor c (processListing env nowv (c, l0) w0) = fetchesFor c w0"
    show "disk (processListing env nowv (c, l0) w0) = disk w0"
    proof (cases rule: processListing_cases [of w0 env nowv c l0])
      case skip
      then show ?thesis by (simp add: quiet_def)
    next
      case (upd w1 l2)
      have "fetchesFor c w1 = fetchesFor c w0" using upd(1) by (simp add: quiet_def)
      then show ?thesis using a upd(3) by (simp add: updateEbayListing_fetchesFor)
    qed
  qed
qed

theorem merge_frame_witness:
  "getEbayListing env0 (url listingB) (worldOf [(''c2'', listingB)]) =
     (Inr (toSnapshot ''scrape'' pageB),
      snd (getEbayListing env0 (url listingB) (worldOf [(''c2'', listingB)]))) \<and>
   ebayListings (loadDb (worldOf [(''c2'', listingB)])) = Some [(''c2'', listingB)] \<and>
   (\<exists>l'. stored (snd (updateEbayListing env0 ''c2'' listingB (worldOf [(''c2'', listingB)]))) ''c2''
            = Some l' \<and>
      currentPrice l' = ''$12.00'' \<and> bidCount l' = 3 \<and>
      lastChecked l' = Some (now env0 1) \<and> url l' = url listingB \<and>
      ownerId l' = ownerId listingB \<and> createdAt l' = createdAt listingB \<and>
      listingType l' = listingType listingB) \<and>
   fetchesFor ''c2'' (processListing env0 0 (''c2'', listingB\<lparr>status := ''sold''\<rparr>)
       (worldOf [(''c2'', listingB\<lparr>status := ''sold''\<rparr>)])) =
     fetchesFor ''c2'' (worldOf [(''c2'', listingB\<lparr>status := ''sold''\<rparr>)]) \<and>
   disk (processListing env0 0 (''c2'', listingB\<lparr>status := ''sold''\<rparr>)
       (worldOf [(''c2'', listingB\<lparr>status := ''sold''\<rparr>)])) =
     disk (worldOf [(''c2'', listingB\<lparr>status := ''sold''\<rparr>)])"
proof -
  have sk: "fetchesFor ''c2'' (processListing env0 0 (''c2'', listingB\<lparr>status := ''sold''\<rparr>)
       (worldOf [(''c2'', listingB\<lparr>status := ''sold''\<rparr>)])) =
     fetchesFor ''c2'' (worldOf [(''c2'', listingB\<lparr>status := ''sold''\<rparr>)])"
    by (simp add: processListing_def)
  note m = merge_frame [OF fetchB(1) worldOf_simps(1),
      of "''c2''" 0 "listingB\<lparr>status := ''sold''\<rparr>"
         "worldOf [(''c2'', listingB\<lparr>status := ''sold''\<rparr>)]"]
  from m sk fetchB worldOf_simps(1) [of "[(''c2'', listingB)]"]
  show ?thesis by (auto simp add: changedB)
qed

theorem merge_listingType_counterexample:
  "fetchesFor ''c2'' (ebayUpdateTick env0 (worldOf [(''c2'', listingB)])) =
     [Inr (toSnapshot ''scrape'' pageB)] \<and>
   listingType (toSnapshot ''scrape'' pageB) = ''auction_with_bin'' \<and>
   buyItNowPrice (toSnapshot ''scrape'' pageB) = Some ''$30.00'' \<and>
   map_option listingType (stored (ebayUpdateTick env0 (worldOf [(''c2'', listingB)])) ''c2'') =
     Some ''auction'' \<and>
   map_option buyItNowPrice (stored (ebayUpdateTick env0 (worldOf [(''c2'', listingB)])) ''c2'') =
     Some None"
  by (simp add: engine_defs input_defs)

text \<open>
  C8: failure isolation within a tick. If the fetch for record \<open>a\<close> fails and the fetch for
  record \<open>b\<close> succeeds with snapshot \<open>nb\<close>, then after the tick the stored record \<open>a\<close> is
  the one from before the tick, and the stored record \<open>b\<close> has the title, price, bid
  count, end time, image, description, views, watchers, status and source of \<open>nb\<close>, keeps
  its \<open>url\<close>, \<open>ownerId\<close>, \<open>createdAt\<close>, \<open>listingType\<close> and \<open>buyItNowPrice\<close>, and has as
  \<open>lastChecked\<close> the clock reading taken when a data source call for its URL, made
  during the tick, had returned \<open>nb\<close>. Every record that is not in a terminal status and
  was last checked at least 30 minutes before the tick's \<open>now\<close> has had its fetch
  attempted, whatever happened to the others.
\<close>

theorem fetch_failure_isolated:
  assumes "ebayListings (loadDb w) = Some ls" and "distinct (map fst ls)"
    and "(a, la) \<in> set ls" and "(b, lb) \<in> set ls"
    and "fetchesFor a (ebayUpdateTick env w) = fetchesFor a w @ [Inl err]"
    and "fetchesFor b (ebayUpdateTick env w) = fetchesFor b w @ [Inr nb]"
  shows "stored (ebayUpdateTick env w) a = Some la \<and>
     (\<exists>l' w0 w1. stored (ebayUpdateTick env w) b = Some l' \<and>
        title l' = title nb \<and> currentPrice l' = currentPrice nb \<and>
        bidCount l' = bidCount nb \<and> endTime l' = endTime nb \<and>
        imageUrl l' = imageUrl nb \<and> description l' = description nb \<and>
        views l' = views nb \<and> watchers l' = watchers nb \<and>
        status l' = status nb \<and> source l' = source nb \<and>
        url l' = url lb \<and> ownerId l' = ownerId lb \<and> createdAt l' = createdAt lb \<and>
        listingType l' = listingType lb \<and> buyItNowPrice l' = buyItNowPrice lb \<and>
        step w < step w0 \<and> getEbayListing env (url lb) w0 = (Inr nb, w1) \<and>
        step w1 \<le> step (ebayUpdateTick env w) \<and>
        lastChecked l' = Some (now env (step w1))) \<and>
     (\<forall>(c, l)\<in>set ls.
        status l \<notin> set [''closed'', ''ended'', ''sold'', ''shipped''] \<and>
        30 * 60 * 1000 \<le> now env (step w) - (case lastChecked l of None \<Rightarrow> 0 | Some x \<Rightarrow> x) \<longrightarrow>
        (\<exists>r. fetchesFor c (ebayUpdateTick env w) = fetchesFor c w @ [r]))"
proof (intro conjI)
  show "stored (ebayUpdateTick env w) a = Some la"
    by (rule tick_failed [OF assms(1,2,3,5)])
  from tick_succeeded [OF assms(1,2,4,6)]
  obtain w0 w1 where s: "step w < step w0" "getEbayListing env (url lb) w0 = (Inr nb, w1)"
    "step w1 \<le> step (ebayUpdateTick env w)"
    "stored (ebayUpdateTick env w) b = Some (mergeSnapshot lb nb (now env (step w1)))"
    by (elim exE conjE)
  let ?l = "mergeSnapshot lb nb (now env (step w1))"
  have "stored (ebayUpdateTick env w) b = Some ?l \<and>
        title ?l = title nb \<and> currentPrice ?l = currentPrice nb \<and>
        bidCount ?l = bidCount nb \<and> endTime ?l = endTime nb \<and>
        imageUrl ?l = imageUrl nb \<and> description ?l = description nb \<and>
        views ?l = views nb \<and> watchers ?l = watchers nb \<and>
        status ?l = status nb \<and> source ?l = source nb \<and>
        url ?l = url lb \<and> ownerId ?l = ownerId lb \<and> createdAt ?l = createdAt lb \<and>
        listingType ?l = listingType lb \<and> buyItNowPrice ?l = buyItNowPrice lb \<and>
        step w < step w0 \<and> getEbayListing env (url lb) w0 = (Inr nb, w1) \<and>
        step w1 \<le> step (ebayUpdateTick env w) \<and>
        lastChecked ?l = Some (now env (step w1))"
    using s by (simp add: mergeSnapshot_def)
  then show "\<exists>l' w0 w1. stored (ebayUpdateTick env w) b = Some l' \<and>
        title l' = title nb \<and> currentPrice l' = currentPrice nb \<and>
        bidCount l' = bidCount nb \<and> endTime l' = endTime nb \<and>
        imageUrl l' = imageUrl nb \<and> description l' = description nb \<and>
        views l' = views nb \<and> watchers l' = watchers nb \<and>
        status l' = status nb \<and> source l' = source nb \<and>
        url l' = url lb \<and> ownerId l' = ownerId lb \<and> createdAt l' = createdAt lb \<and>
        listingType l' = listingType lb \<and> buyItNowPrice l' = buyItNowPrice lb \<and>
        step w < step w0 \<and> getEbayListing env (url lb) w0 = (Inr nb, w1) \<and>
        step w1 \<le> step (ebayUpdateTick env w) \<and>
        lastChecked l' = Some (now env (step w1))"
    by (intro exI)
  show "\<forall>(c, l)\<in>set ls.
        status l \<notin> set [''closed'', ''ended'', ''sold'', ''shipped''] \<and>
        30 * 60 * 1000 \<le> now env (step w) - (case lastChecked l of None \<Rightarrow> 0 | Some x \<Rightarrow> x) \<longrightarrow>
        (\<exists>r. fetchesFor c (ebayUpdateTick env w) = fetchesFor c w @ [r])"
    using tick_overdue [OF assms(1,2)] by blast
qed

theorem fetch_failure_isolated_witness:
  "ebayListings (loadDb (worldOf [(''c3'', listingF), (''c2'', listingB)])) =
     Some [(''c3'', listingF), (''c2'', listingB)] \<and>
   distinct (map fst [(''c3'', listingF), (''c2'', listingB)]) \<and>
   fetchesFor ''c3'' (ebayUpdateTick env0 (worldOf [(''c3'', listingF), (''c2'', listingB)])) =
     fetchesFor ''c3'' (worldOf [(''c3'', listingF), (''c2'', listingB)]) @
       [Inl ''Failed to fetch eBay listing: 500''] \<and>
   fetchesFor ''c2'' (ebayUpdateTick env0 (worldOf [(''c3'', listingF), (''c2'', listingB)])) =
     fetchesFor ''c2'' (worldOf [(''c3'', listingF), (''c2'', listingB)]) @
       [Inr (toSnapshot ''scrape'' pageB)] \<and>
   stored (ebayUpdateTick env0 (worldOf [(''c3'', listingF), (''c2'', listingB)])) ''c3'' =
     Some listingF \<and>
   (\<exists>l' w0 w1.
      stored (ebayUpdateTick env0 (worldOf [(''c3'', listingF), (''c2'', listingB)])) ''c2'' =
        Some l' \<and>
      title l' = ''Clock'' \<and> currentPrice l' = ''$12.00'' \<and> bidCount l' = 3 \<and>
      views l' = 7 \<and> status l' = ''active'' \<and> source l' = ''scrape'' \<and>
      url l' = ''https://www.ebay.com/itm/2'' \<and> ownerId l' = ''42'' \<and>
      createdAt l' = 1699000000000 \<and> listingType l' = ''auction'' \<and>
      0 < step w0 \<and>
      getEbayListing env0 ''https://www.ebay.com/itm/2'' w0 =
        (Inr (toSnapshot ''scrape'' pageB), w1) \<and>
      lastChecked l' = Some (now env0 (step w1)))"
proof -
  let ?ls = "[(''c3'', listingF), (''c2'', listingB)]"
  have e: "ebayListings (loadDb (worldOf ?ls)) = Some ?ls" by (rule worldOf_simps)
  have d: "distinct (map fst ?ls)" by simp
  have ma: "(''c3'', listingF) \<in> set ?ls" and mb: "(''c2'', listingB) \<in> set ?ls" by simp_all
  have fa: "fetchesFor ''c3'' (ebayUpdateTick env0 (worldOf ?ls)) =
      fetchesFor ''c3'' (worldOf ?ls) @ [Inl ''Failed to fetch eBay listing: 500'']"
    by (simp add: engine_defs input_defs)
  have fb: "fetchesFor ''c2'' (ebayUpdateTick env0 (worldOf ?ls)) =
      fetchesFor ''c2'' (worldOf ?ls) @ [Inr (toSnapshot ''scrape'' pageB)]"
    by (simp add: engine_defs input_defs)
  have v: "title (toSnapshot ''scrape'' pageB) = ''Clock''"
    "views (toSnapshot ''scrape'' pageB) = 7"
    "source (toSnapshot ''scrape'' pageB) = ''scrape''"
    "url listingB = ''https://www.ebay.com/itm/2''" "ownerId listingB = ''42''"
    "createdAt listingB = 1699000000000" "listingType listingB = ''auction''"
    by (simp_all add: toSnapshot_def pageB_def listingB_def)
  from fetch_failure_isolated [OF e d ma mb fa fb]
  have st: "stored (ebayUpdateTick env0 (worldOf ?ls)) ''c3'' = Some listingF"
    and "\<exists>l' w0 w1. stored (ebayUpdateTick env0 (worldOf ?ls)) ''c2'' = Some l' \<and>
        title l' = title (toSnapshot ''scrape'' pageB) \<and>
        currentPrice l' = currentPrice (toSnapshot ''scrape'' pageB) \<and>
        bidCount l' = bidCount (toSnapshot ''scrape'' pageB) \<and>
        endTime l' = endTime (toSnapshot ''scrape'' pageB) \<and>
        imageUrl l' = imageUrl (toSnapshot ''scrape'' pageB) \<and>
        description l' = description (toSnapshot ''scrape'' pageB) \<and>
        views l' = views (toSnapshot ''scrape'' pageB) \<and>
        watchers l' = watchers (toSnapshot ''scrape'' pageB) \<and>
        status l' = status (toSnapshot ''scrape'' pageB) \<and>
        source l' = source (toSnapshot ''scrape'' pageB) \<and>
        url l' = url listingB \<and> ownerId l' = ownerId listingB \<and>
        createdAt l' = createdAt listingB \<and>
        listingType l' = listingType listingB \<and> buyItNowPrice l' = buyItNowPrice listingB \<and>
        step (worldOf ?ls) < step w0 \<and>
        getEbayListing env0 (url listingB) w0 = (Inr (toSnapshot ''scrape'' pageB), w1) \<and>
        step w1 \<le> step (ebayUpdateTick env0 (worldOf ?ls)) \<and>
        lastChecked l' = Some (now env0 (step w1))"
    by simp_all
  then obtain l' w0 w1 where
    p: "stored (ebayUpdateTick env0 (worldOf ?ls)) ''c2'' = Some l'"
      "title l' = title (toSnapshot ''scrape'' pageB)"
      "currentPrice l' = currentPrice (toSnapshot ''scrape'' pageB)"
      "bidCount l' = bidCount (toSnapshot ''scrape'' pageB)"
      "views l' = views (toSnapshot ''scrape'' pageB)"
      "status l' = status (toSnapshot ''scrape'' pageB)"
      "source l' = source (toSnapshot ''scrape'' pageB)"
      "url l' = url listingB" "ownerId l' = ownerId listingB"
      "createdAt l' = createdAt listingB" "listingType l' = listingType listingB"
      "step (worldOf ?ls) < step w0"
      "getEbayListing env0 (url listingB) w0 = (Inr (toSnapshot ''scrape'' pageB), w1)"
      "lastChecked l' = Some (now env0 (step w1))"
    by (elim exE conjE)
  have "stored (ebayUpdateTick env0 (worldOf ?ls)) ''c2'' = Some l' \<and>
      title l' = ''Clock'' \<and> currentPrice l' = ''$12.00'' \<and> bidCount l' = 3 \<and>
      views l' = 7 \<and> status l' = ''active'' \<and> source l' = ''scrape'' \<and>
      url l' = ''https://www.ebay.com/itm/2'' \<and> ownerId l' = ''42'' \<and>
      createdAt l' = 1699000000000 \<and> listingType l' = ''auction'' \<and>
      0 < step w0 \<and>
      getEbayListing env0 ''https://www.ebay.com/itm/2'' w0 =
        (Inr (toSnapshot ''scrape'' pageB), w1) \<and>
      lastChecked l' = Some (now env0 (step w1))"
    using p by (simp add: v changedB worldOf_simps(2))
  then have ex: "\<exists>l' w0 w1.
      stored (ebayUpdateTick env0 (worldOf ?ls)) ''c2'' = Some l' \<and>
      title l' = ''Clock'' \<and> currentPrice l' = ''$12.00'' \<and> bidCount l' = 3 \<and>
      views l' = 7 \<and> status l' = ''active'' \<and> source l' = ''scrape'' \<and>
      url l' = ''https://www.ebay.com/itm/2'' \<and> ownerId l' = ''42'' \<and>
      createdAt l' = 1699000000000 \<and> listingType l' = ''auction'' \<and>
      0 < step w0 \<and>
      getEbayListing env0 ''https://www.ebay.com/itm/2'' w0 =
        (Inr (toSnapshot ''scrape'' pageB), w1) \<and>
      lastChecked l' = Some (now env0 (step w1))"
    by (intro exI)
  show ?thesis using e d fa fb st ex by (intro conjI)
qed

text \<open>
  C9: the data source with the API strategy enabled. If the API call succeeds, its
  snapshot is returned with source \<open>api\<close> and the scrape strategy is not called. If it
  fails, the scrape strategy is called once: its snapshot is returned with source
  \<open>scrape\<close>, or, if it fails too, the call fails with the scrape strategy's error.
\<close>

theorem getEbayListing_fallback:
  assumes "isEbayApiEnabled env w"
  shows "(\<forall>p. apiResponse env (step w) u = Inr p \<longrightarrow>
            fst (getEbayListing env u w) = Inr (toSnapshot ''api'' p) \<and>
            source (toSnapshot ''api'' p) = ''api'' \<and>
            trace (snd (getEbayListing env u w)) = trace w @ [ApiCall u]) \<and>
         (\<forall>e. apiResponse env (step w) u = Inl e \<longrightarrow>
            trace (snd (getEbayListing env u w)) = trace w @ [ApiCall u, ScrapeCall u] \<and>
            (\<forall>q. scrapeResponse env (Suc (step w)) u = Inr q \<longrightarrow>
               fst (getEbayListing env u w) = Inr (toSnapshot ''scrape'' q) \<and>
               source (toSnapshot ''scrape'' q) = ''scrape'') \<and>
            (\<forall>e2. scrapeResponse env (Suc (step w)) u = Inl e2 \<longrightarrow>
               fst (getEbayListing env u w) = Inl e2))"
  using assms
  by (simp add: getEbayListing_def fetchEbayListingViaAPI_def scrapeEbayListing_def
        toSnapshot_def)

theorem getEbayListing_fallback_witness:
  "isEbayApiEnabled envApi (worldOf []) \<and>
   apiResponse envApi (step (worldOf [])) ''https://www.ebay.com/itm/2'' = Inl ''eBay API error: 500'' \<and>
   fst (getEbayListing envApi ''https://www.ebay.com/itm/2'' (worldOf [])) =
     Inr (toSnapshot ''scrape'' pageB) \<and>
   source (toSnapshot ''scrape'' pageB) = ''scrape'' \<and>
   trace (snd (getEbayListing envApi ''https://www.ebay.com/itm/2'' (worldOf []))) =
     [ApiCall ''https://www.ebay.com/itm/2'', ScrapeCall ''https://www.ebay.com/itm/2'']"
proof -
  have en: "isEbayApiEnabled envApi (worldOf [])"
    by (simp add: isEbayApiEnabled_def getEbayCredentials_def envApi_def env0_def
          worldOf_def loadDb_def)
  have api: "apiResponse envApi (step (worldOf [])) ''https://www.ebay.com/itm/2'' =
      Inl ''eBay API error: 500''"
    by (simp add: envApi_def env0_def)
  have scr: "scrapeResponse envApi (Suc (step (worldOf []))) ''https://www.ebay.com/itm/2'' =
      Inr pageB"
    by (simp add: envApi_def env0_def scrape0_def)
  have tr: "trace (worldOf []) = []" by (simp add: worldOf_def)
  show ?thesis
    using getEbayListing_fallback [OF en, of "''https://www.ebay.com/itm/2''"] en api scr tr
    by simp
qed

text \<open>
  C10: a record that is not in a terminal status and whose \<open>lastChecked\<close> is missing or 0
  is due on the tick that scans it: the elapsed time is \<open>now - 0\<close>, which is at least every
  interval of the policy as soon as the clock reads 30 minutes or more past the epoch, so
  one fetch is attempted. The loop body treats a missing \<open>lastChecked\<close> and
  \<open>lastChecked = 0\<close> alike.
\<close>

theorem never_checked_is_due:
  assumes "ebayListings (loadDb w) = Some ls" and "distinct (map fst ls)"
    and "(c, l) \<in> set ls"
    and "status l \<notin> set [''closed'', ''ended'', ''sold'', ''shipped'']"
    and "lastChecked l = None \<or> lastChecked l = Some 0"
    and "30 * 60 * 1000 \<le> now env (step w)"
  shows "(\<exists>r. fetchesFor c (ebayUpdateTick env w) = fetchesFor c w @ [r]) \<and>
         processListing env nowv (c, l\<lparr>lastChecked := None\<rparr>) w' =
           processListing env nowv (c, l\<lparr>lastChecked := Some 0\<rparr>) w'"
proof
  have "30 * 60 * 1000 \<le> now env (step w) - (case lastChecked l of None \<Rightarrow> 0 | Some x \<Rightarrow> x)"
    using assms(5,6) by auto
  from tick_overdue [OF assms(1-4) this]
  show "\<exists>r. fetchesFor c (ebayUpdateTick env w) = fetchesFor c w @ [r]" .
  show "processListing env nowv (c, l\<lparr>lastChecked := None\<rparr>) w' =
           processListing env nowv (c, l\<lparr>lastChecked := Some 0\<rparr>) w'"
    by (simp add: processListing_def updateEbayListing_lastChecked split: prod.splits option.splits)
qed

theorem never_checked_is_due_witness:
  "ebayListings (loadDb (worldOf [(''c2'', listingB\<lparr>lastChecked := None\<rparr>)])) =
     Some [(''c2'', listingB\<lparr>lastChecked := None\<rparr>)] \<and>
   distinct (map fst [(''c2'', listingB\<lparr>lastChecked := None\<rparr>)]) \<and>
   status (listingB\<lparr>lastChecked := None\<rparr>) \<notin> set [''closed'', ''ended'', ''sold'', ''shipped''] \<and>
   lastChecked (listingB\<lparr>lastChecked := None\<rparr>) = None \<and>
   30 * 60 * 1000 \<le> now env0 (step (worldOf [(''c2'', listingB\<lparr>lastChecked := None\<rparr>)])) \<and>
   (\<exists>r. fetchesFor ''c2'' (ebayUpdateTick env0 (worldOf [(''c2'', listingB\<lparr>lastChecked := None\<rparr>)])) =
      [r])"
proof -
  let ?l = "listingB\<lparr>lastChecked := None\<rparr>"
  have e: "ebayListings (loadDb (worldOf [(''c2'', ?l)])) = Some [(''c2'', ?l)]"
    by (rule worldOf_simps)
  have d: "distinct (map fst [(''c2'', ?l)])" by simp
  have m: "(''c2'', ?l) \<in> set [(''c2'', ?l)]" by simp
  have nt: "status ?l \<notin> set [''closed'', ''ended'', ''sold'', ''shipped'']"
    by (simp add: listingB_def)
  have lc: "lastChecked ?l = None \<or> lastChecked ?l = Some 0" by simp
  have n: "30 * 60 * 1000 \<le> now env0 (step (worldOf [(''c2'', ?l)]))"
    by (simp add: env0_def worldOf_def)
  from never_checked_is_due [OF e d m nt lc n, of 0 "worldOf []"] e d nt n
  show ?thesis by (simp add: worldOf_simps)
qed

end
